theory Spec2Isabelle
  imports Complex_Main
begin

section \<open>The relational store of \<^verbatim>\<open>database.py\<close>\<close>

text \<open>
  The class \<^verbatim>\<open>Database\<close> wraps one SQLite file.  Every method opens a connection, runs
  its statements and commits; an exception raised inside \<^verbatim>\<open>with conn:\<close> rolls the
  transaction back.  The model passes the store explicitly: every operation takes the
  store and returns the outcome (\<open>Inl\<close> an exception, \<open>Inr\<close> the returned value) paired
  with the store that is left behind.

  One record per table, one field per column, in the order of the \<^verbatim>\<open>CREATE TABLE\<close>
  statements.  Columns declared \<^verbatim>\<open>NOT NULL\<close> hold a value, the others an option.
  A table is the list of its rows in scan order.  Every table has an
  \<^verbatim>\<open>INTEGER PRIMARY KEY AUTOINCREMENT\<close> column, so SQLite keeps for each table the
  largest rowid it ever handed out (table \<^verbatim>\<open>sqlite_sequence\<close>); the store carries these
  counters as well.  A rating is a number: SQLite declares the column \<^verbatim>\<open>INTEGER\<close>, which is
  an affinity and not a constraint, so the column holds an integer or a real number.

  The source never issues \<^verbatim>\<open>PRAGMA foreign_keys = ON\<close>, so SQLite parses the
  \<^verbatim>\<open>FOREIGN KEY\<close> clauses without enforcing them; they do not appear in the model.
\<close>

record player =
  pl_id :: int
  pl_username :: string
  pl_password :: string
  pl_email :: string
  pl_name :: string
  pl_picture :: "string option"
  pl_birthYear :: int
  pl_country :: string
  pl_number :: "int option"
  pl_parent :: "string option"
  pl_parentEmail :: "string option"
  pl_parentPhone :: "string option"
  pl_coach :: "string option"
  pl_coachEmail :: "string option"
  pl_coachPhone :: "string option"
  pl_team :: "string option"
  pl_shirtNumber :: "int option"
  pl_team_id :: "int option"

record coach =
  co_id :: int
  co_username :: string
  co_password :: string
  co_email :: string
  co_name :: string
  co_picture :: "string option"
  co_birthYear :: int
  co_country :: string
  co_team :: "string option"
  co_team_id :: "int option"

record team =
  tm_id :: int
  tm_name :: string
  tm_coach_id :: int

record parent =
  pa_id :: int
  pa_username :: string
  pa_password :: string
  pa_email :: string
  pa_name :: string
  pa_picture :: "string option"
  pa_birthYear :: int
  pa_country :: string
  pa_child_name :: "string option"
  pa_child_email :: "string option"

record category =
  cat_id :: int
  cat_name :: string

record parent_player =
  pp_id :: int
  pp_parent_id :: int
  pp_player_id :: int

record exercise =
  ex_id :: int
  ex_category_id :: int
  ex_name :: string

record player_exercise =
  pe_id :: int
  pe_player_id :: int
  pe_exercise_id :: int
  pe_result :: "string option"
  pe_rating :: "real option"

record store =
  PLAYER :: "player list"
  COACH :: "coach list"
  TEAM :: "team list"
  PARENT :: "parent list"
  CATEGORY :: "category list"
  PARENT_PLAYER :: "parent_player list"
  EXERCISE :: "exercise list"
  PLAYER_EXERCISE :: "player_exercise list"
  seq_PLAYER :: int
  seq_COACH :: int
  seq_TEAM :: int
  seq_PARENT :: int
  seq_CATEGORY :: int
  seq_PARENT_PLAYER :: int
  seq_EXERCISE :: int
  seq_PLAYER_EXERCISE :: int

text \<open>The store right after the eight \<^verbatim>\<open>CREATE TABLE IF NOT EXISTS\<close> statements ran on a
  new file: every table exists and has no row.  On a store whose tables exist these
  statements do nothing, so they leave no trace in the operations below.\<close>

definition empty_store :: store where
  "empty_store =
     \<lparr>PLAYER = [], COACH = [], TEAM = [], PARENT = [], CATEGORY = [],
      PARENT_PLAYER = [], EXERCISE = [], PLAYER_EXERCISE = [],
      seq_PLAYER = 0, seq_COACH = 0, seq_TEAM = 0, seq_PARENT = 0, seq_CATEGORY = 0,
      seq_PARENT_PLAYER = 0, seq_EXERCISE = 0, seq_PLAYER_EXERCISE = 0\<rparr>"

text \<open>The rows of the eight tables, without the rowid counters.\<close>

definition tables ::
  "store \<Rightarrow> player list \<times> coach list \<times> team list \<times> parent list \<times> category list \<times>
     parent_player list \<times> exercise list \<times> player_exercise list" where
  "tables s =
     (PLAYER s, COACH s, TEAM s, PARENT s, CATEGORY s, PARENT_PLAYER s, EXERCISE s,
      PLAYER_EXERCISE s)"

text \<open>The exceptions the methods raise: \<^verbatim>\<open>ValueError\<close> with its message (the source uses it
  for bad input, for a missing row and for a conflict alike), \<^verbatim>\<open>sqlite3.IntegrityError\<close>
  when a \<^verbatim>\<open>UNIQUE\<close> or \<^verbatim>\<open>CHECK\<close> constraint rejects a statement, \<^verbatim>\<open>TypeError\<close> for
  subscripting \<^verbatim>\<open>None\<close>, \<^verbatim>\<open>OverflowError\<close> when a Python int that does not fit SQLite's
  64-bit \<^verbatim>\<open>INTEGER\<close> is bound to a parameter, and \<^verbatim>\<open>sqlite3.OperationalError\<close> when
  SQLite reports that the database is full.\<close>

datatype error =
  ValueError string | IntegrityError | TypeError | OverflowError | OperationalError

text \<open>Python's ints are unbounded, SQLite's are signed 64-bit values: the \<^verbatim>\<open>sqlite3\<close> module
  raises \<^verbatim>\<open>OverflowError\<close> when asked to bind an int outside that range.\<close>

definition fits_int64 :: "int \<Rightarrow> bool" where
  "fits_int64 n \<longleftrightarrow> - 9223372036854775808 \<le> n \<and> n \<le> 9223372036854775807"

subsection \<open>AUTOINCREMENT\<close>

text \<open>SQLite picks the rowid of a new row as one more than the largest rowid in the
  table (1 for an empty table), and at least one more than the table's counter; the
  counter then becomes the rowid picked.  The rowid is picked before the constraints are
  checked, so a row dropped by \<^verbatim>\<open>INSERT OR IGNORE\<close> still advances the counter.\<close>

definition next_rowid :: "int \<Rightarrow> int list \<Rightarrow> int" where
  "next_rowid seq ids =
     max (seq + 1) (case ids of [] \<Rightarrow> 1 | i # rest \<Rightarrow> fold max rest i + 1)"

text \<open>The largest rowid is \<open>2\<^sup>6\<^sup>3 - 1\<close>.  Once the counter or a row of the table has reached
  it, SQLite refuses to draw a rowid and the \<^verbatim>\<open>INSERT\<close> fails with \<^verbatim>\<open>SQLITE_FULL\<close>, which
  Python raises as \<^verbatim>\<open>OperationalError\<close>.  \<^verbatim>\<open>create_team\<close> below makes this test.  The
  bootstrap, \<^verbatim>\<open>add_user\<close> and \<^verbatim>\<open>link_child\<close> are modelled without it, as if rowids were
  unbounded: what is proved about them holds of stores whose counters are below the
  limit.\<close>

definition max_rowid :: int where
  "max_rowid = 9223372036854775807"

definition rowid_exhausted :: "int \<Rightarrow> int list \<Rightarrow> bool" where
  "rowid_exhausted seq ids \<longleftrightarrow> max_rowid \<le> seq \<or> list_ex (\<lambda>i. max_rowid \<le> i) ids"

subsection \<open>Schema bootstrap\<close>

definition categories :: "string list" where
  "categories = [''PAC'', ''SHO'', ''PAS'', ''DRI'', ''DEF'', ''PHY'']"

definition exercises :: "(string \<times> string list) list" where
  "exercises =
     [(''PAC'', [''Sprint Speed'', ''Acceleration'']),
      (''SHO'', [''Shot Speed (radar)'', ''Long Shots'', ''Free Kick Accuracy'']),
      (''PAS'', [''Short Passing'', ''Long Passing'', ''Crossing'']),
      (''DRI'', [''Zidane Fake Pass'', ''Stepovers'', ''Elastico'']),
      (''DEF'', [''Tackling'', ''Marking'', ''Interceptions'']),
      (''PHY'', [''Strength'', ''Stamina'', ''Jumping''])]"

text \<open>\<^verbatim>\<open>INSERT OR IGNORE INTO CATEGORY (name) VALUES (?)\<close>: the name is \<^verbatim>\<open>UNIQUE\<close>.\<close>

definition insert_or_ignore_category :: "string \<Rightarrow> store \<Rightarrow> store" where
  "insert_or_ignore_category name s =
     (let i = next_rowid (seq_CATEGORY s) (map cat_id (CATEGORY s)) in
      if name \<in> set (map cat_name (CATEGORY s)) then s\<lparr>seq_CATEGORY := i\<rparr>
      else s\<lparr>CATEGORY := CATEGORY s @ [\<lparr>cat_id = i, cat_name = name\<rparr>], seq_CATEGORY := i\<rparr>)"

text \<open>\<^verbatim>\<open>INSERT OR IGNORE INTO EXERCISE (category_id, name) VALUES (?, ?)\<close>: the pair is
  \<^verbatim>\<open>UNIQUE\<close>.\<close>

definition insert_or_ignore_exercise :: "int \<Rightarrow> string \<Rightarrow> store \<Rightarrow> store" where
  "insert_or_ignore_exercise category_id name s =
     (let i = next_rowid (seq_EXERCISE s) (map ex_id (EXERCISE s)) in
      if (category_id, name) \<in> set (map (\<lambda>e. (ex_category_id e, ex_name e)) (EXERCISE s))
      then s\<lparr>seq_EXERCISE := i\<rparr>
      else s\<lparr>EXERCISE := EXERCISE s @ [\<lparr>ex_id = i, ex_category_id = category_id, ex_name = name\<rparr>],
             seq_EXERCISE := i\<rparr>)"

text \<open>The loop over \<^verbatim>\<open>exercises.items()\<close>.  \<^verbatim>\<open>cursor.fetchone()[0]\<close> raises
  \<^verbatim>\<open>TypeError\<close> when the category is not there; nothing was committed then.\<close>

fun seed_exercises :: "(string \<times> string list) list \<Rightarrow> store \<Rightarrow> error + store" where
  "seed_exercises [] s = Inr s"
| "seed_exercises ((category, exercise_list) # rest) s =
     (case find (\<lambda>c. cat_name c = category) (CATEGORY s) of
        None \<Rightarrow> Inl TypeError
      | Some c \<Rightarrow> seed_exercises rest (fold (insert_or_ignore_exercise (cat_id c)) exercise_list s))"

definition initialize_database :: "store \<Rightarrow> (error + unit) \<times> store" where
  "initialize_database s =
     (case seed_exercises exercises (fold insert_or_ignore_category categories s) of
        Inl e \<Rightarrow> (Inl e, s)
      | Inr s' \<Rightarrow> (Inr (), s'))"

text \<open>Calling the bootstrap \<open>n\<close> times in sequence; the first exception ends the run.\<close>

fun initialize_n :: "nat \<Rightarrow> store \<Rightarrow> (error + unit) \<times> store" where
  "initialize_n 0 s = (Inr (), s)"
| "initialize_n (Suc n) s =
     (case initialize_database s of
        (Inl e, s') \<Rightarrow> (Inl e, s')
      | (Inr u, s') \<Rightarrow> initialize_n n s')"

text \<open>The seed rows as the first bootstrap writes them.\<close>

definition seed_categories :: "category list" where
  "seed_categories =
     [\<lparr>cat_id = 1, cat_name = ''PAC''\<rparr>, \<lparr>cat_id = 2, cat_name = ''SHO''\<rparr>,
      \<lparr>cat_id = 3, cat_name = ''PAS''\<rparr>, \<lparr>cat_id = 4, cat_name = ''DRI''\<rparr>,
      \<lparr>cat_id = 5, cat_name = ''DEF''\<rparr>, \<lparr>cat_id = 6, cat_name = ''PHY''\<rparr>]"

definition seed_exercise_rows :: "exercise list" where
  "seed_exercise_rows =
     [\<lparr>ex_id = 1, ex_category_id = 1, ex_name = ''Sprint Speed''\<rparr>,
      \<lparr>ex_id = 2, ex_category_id = 1, ex_name = ''Acceleration''\<rparr>,
      \<lparr>ex_id = 3, ex_category_id = 2, ex_name = ''Shot Speed (radar)''\<rparr>,
      \<lparr>ex_id = 4, ex_category_id = 2, ex_name = ''Long Shots''\<rparr>,
      \<lparr>ex_id = 5, ex_category_id = 2, ex_name = ''Free Kick Accuracy''\<rparr>,
      \<lparr>ex_id = 6, ex_category_id = 3, ex_name = ''Short Passing''\<rparr>,
      \<lparr>ex_id = 7, ex_category_id = 3, ex_name = ''Long Passing''\<rparr>,
      \<lparr>ex_id = 8, ex_category_id = 3, ex_name = ''Crossing''\<rparr>,
      \<lparr>ex_id = 9, ex_category_id = 4, ex_name = ''Zidane Fake Pass''\<rparr>,
      \<lparr>ex_id = 10, ex_category_id = 4, ex_name = ''Stepovers''\<rparr>,
      \<lparr>ex_id = 11, ex_category_id = 4, ex_name = ''Elastico''\<rparr>,
      \<lparr>ex_id = 12, ex_category_id = 5, ex_name = ''Tackling''\<rparr>,
      \<lparr>ex_id = 13, ex_category_id = 5, ex_name = ''Marking''\<rparr>,
      \<lparr>ex_id = 14, ex_category_id = 5, ex_name = ''Interceptions''\<rparr>,
      \<lparr>ex_id = 15, ex_category_id = 6, ex_name = ''Strength''\<rparr>,
      \<lparr>ex_id = 16, ex_category_id = 6, ex_name = ''Stamina''\<rparr>,
      \<lparr>ex_id = 17, ex_category_id = 6, ex_name = ''Jumping''\<rparr>]"


section \<open>The public operations\<close>

subsection \<open>User registration\<close>

text \<open>One row of the \<^verbatim>\<open>executemany\<close> in \<^verbatim>\<open>add_user\<close>:
  \<^verbatim>\<open>INSERT INTO PLAYER_EXERCISE (player_id, exercise_id) VALUES (?, ?)\<close>; result and rating
  take their default \<^verbatim>\<open>NULL\<close>.\<close>

definition insert_player_exercise :: "int \<times> int \<Rightarrow> store \<Rightarrow> store" where
  "insert_player_exercise row s =
     (let i = next_rowid (seq_PLAYER_EXERCISE s) (map pe_id (PLAYER_EXERCISE s)) in
      s\<lparr>PLAYER_EXERCISE := PLAYER_EXERCISE s @
           [\<lparr>pe_id = i, pe_player_id = fst row, pe_exercise_id = snd row,
             pe_result = None, pe_rating = None\<rparr>],
        seq_PLAYER_EXERCISE := i\<rparr>)"

text \<open>\<^verbatim>\<open>add_user\<close>.  Username and email are \<^verbatim>\<open>UNIQUE\<close> in each of the three tables; a
  duplicate makes the \<^verbatim>\<open>INSERT\<close> raise \<^verbatim>\<open>IntegrityError\<close>.  The \<^verbatim>\<open>INSERT INTO COACH\<close>
  names no \<^verbatim>\<open>number\<close> column and the \<^verbatim>\<open>INSERT INTO PARENT\<close> neither \<^verbatim>\<open>number\<close> nor
  \<^verbatim>\<open>team_id\<close>.\<close>

definition add_user ::
  "store \<Rightarrow> string \<Rightarrow> string \<Rightarrow> string \<Rightarrow> string \<Rightarrow> int \<Rightarrow> string \<Rightarrow> string \<Rightarrow>
     int option \<Rightarrow> int option \<Rightarrow> (error + int) \<times> store" where
  "add_user s username password email name birthYear country role number team_id =
     (let number = (case number of None \<Rightarrow> 0 | Some n \<Rightarrow> n) in
      if role = ''player'' then
        if username \<in> set (map pl_username (PLAYER s)) \<or> email \<in> set (map pl_email (PLAYER s))
        then (Inl IntegrityError, s)
        else
          let user_id = next_rowid (seq_PLAYER s) (map pl_id (PLAYER s));
              s1 = s\<lparr>PLAYER := PLAYER s @
                      [\<lparr>pl_id = user_id, pl_username = username, pl_password = password,
                        pl_email = email, pl_name = name, pl_picture = None,
                        pl_birthYear = birthYear, pl_country = country,
                        pl_number = Some number, pl_parent = None, pl_parentEmail = None,
                        pl_parentPhone = None, pl_coach = None, pl_coachEmail = None,
                        pl_coachPhone = None, pl_team = None, pl_shirtNumber = None,
                        pl_team_id = team_id\<rparr>],
                    seq_PLAYER := user_id\<rparr>;
              exercise_ids = map ex_id (EXERCISE s1);
              player_exercises = map (\<lambda>exercise_id. (user_id, exercise_id)) exercise_ids
          in (Inr user_id, fold insert_player_exercise player_exercises s1)
      else if role = ''coach'' then
        if username \<in> set (map co_username (COACH s)) \<or> email \<in> set (map co_email (COACH s))
        then (Inl IntegrityError, s)
        else
          let user_id = next_rowid (seq_COACH s) (map co_id (COACH s))
          in (Inr user_id,
              s\<lparr>COACH := COACH s @
                   [\<lparr>co_id = user_id, co_username = username, co_password = password,
                     co_email = email, co_name = name, co_picture = None,
                     co_birthYear = birthYear, co_country = country, co_team = None,
                     co_team_id = team_id\<rparr>],
                seq_COACH := user_id\<rparr>)
      else if role = ''parent'' then
        if username \<in> set (map pa_username (PARENT s)) \<or> email \<in> set (map pa_email (PARENT s))
        then (Inl IntegrityError, s)
        else
          let user_id = next_rowid (seq_PARENT s) (map pa_id (PARENT s))
          in (Inr user_id,
              s\<lparr>PARENT := PARENT s @
                   [\<lparr>pa_id = user_id, pa_username = username, pa_password = password,
                     pa_email = email, pa_name = name, pa_picture = None,
                     pa_birthYear = birthYear, pa_country = country, pa_child_name = None,
                     pa_child_email = None\<rparr>],
                seq_PARENT := user_id\<rparr>)
      else (Inl (ValueError ''Invalid role provided''), s))"

subsection \<open>User lookup\<close>

text \<open>A row of any of the three user tables, as \<^verbatim>\<open>SELECT *\<close> returns it.  A row tuple is
  never empty, so \<^verbatim>\<open>if user:\<close> asks whether \<^verbatim>\<open>fetchone()\<close> found a row.\<close>

datatype user_row = PlayerRow player | CoachRow coach | ParentRow parent

definition get_user_by_email :: "store \<Rightarrow> string \<Rightarrow> user_row option \<times> string option" where
  "get_user_by_email s email =
     (case find (\<lambda>p. pl_email p = email) (PLAYER s) of
        Some user \<Rightarrow> (Some (PlayerRow user), Some ''player'')
      | None \<Rightarrow>
          (case find (\<lambda>c. co_email c = email) (COACH s) of
             Some user \<Rightarrow> (Some (CoachRow user), Some ''coach'')
           | None \<Rightarrow>
               (case find (\<lambda>p. pa_email p = email) (PARENT s) of
                  Some user \<Rightarrow> (Some (ParentRow user), Some ''parent'')
                | None \<Rightarrow> (None, None))))"

subsection \<open>User update and delete\<close>

text \<open>\<^verbatim>\<open>update_user\<close> runs \<^verbatim>\<open>UPDATE {table} SET {key} = ? WHERE id = ?\<close> for every keyword
  argument, the table chosen by the role.  Column names and values are the caller's, so
  the model does not say which rows result: it relates the store to every store that
  differs from it in the rows of that one table only, which is all an \<^verbatim>\<open>UPDATE\<close> of that
  table can change.  The rowid counters are written by \<^verbatim>\<open>INSERT\<close> only.\<close>

inductive update_user :: "store \<Rightarrow> string \<Rightarrow> store \<Rightarrow> bool" where
  update_player: "update_user s ''player'' (s\<lparr>PLAYER := rows\<rparr>)"
| update_coach: "update_user s ''coach'' (s\<lparr>COACH := rows\<rparr>)"
| update_parent: "update_user s ''parent'' (s\<lparr>PARENT := rows\<rparr>)"

text \<open>\<^verbatim>\<open>DELETE FROM PLAYER WHERE id = ?\<close>\<close>

definition delete_user :: "store \<Rightarrow> int \<Rightarrow> store" where
  "delete_user s i = s\<lparr>PLAYER := filter (\<lambda>p. pl_id p \<noteq> i) (PLAYER s)\<rparr>"

subsection \<open>Exercise progress query\<close>

text \<open>The rows of the join: for every category each of its exercises, and for each
  exercise either its \<^verbatim>\<open>PLAYER_EXERCISE\<close> rows of this player or, when there is none, one
  row with \<^verbatim>\<open>NULL\<close> result and rating (\<^verbatim>\<open>LEFT JOIN\<close>).  The query has no
  \<^verbatim>\<open>ORDER BY\<close>, so SQL leaves the order of these rows to the engine; the model lists
  them category by category, and nothing proved about the query below depends on the
  order.\<close>

definition progress_rows ::
  "store \<Rightarrow> int \<Rightarrow> (string \<times> string \<times> string option \<times> real option) list" where
  "progress_rows s player_id =
     concat (map (\<lambda>c.
       concat (map (\<lambda>e.
         (let pes = filter (\<lambda>pe. ex_id e = pe_exercise_id pe \<and> pe_player_id pe = player_id)
                      (PLAYER_EXERCISE s)
          in if pes = [] then [(cat_name c, ex_name e, None, None)]
             else map (\<lambda>pe. (cat_name c, ex_name e, pe_result pe, pe_rating pe)) pes))
         (filter (\<lambda>e. cat_id c = ex_category_id e) (EXERCISE s))))
       (CATEGORY s))"

record entry =
  e_exercise :: string
  e_result :: "string option"
  e_rating :: "real option"

text \<open>\<^verbatim>\<open>x if x else None\<close>: Python takes \<^verbatim>\<open>None\<close>, the empty string and \<^verbatim>\<open>0\<close> as false.\<close>

definition truthy_text :: "string option \<Rightarrow> string option" where
  "truthy_text x = (case x of None \<Rightarrow> None | Some t \<Rightarrow> if t = [] then None else Some t)"

definition truthy_number :: "real option \<Rightarrow> real option" where
  "truthy_number x = (case x of None \<Rightarrow> None | Some n \<Rightarrow> if n = 0 then None else Some n)"

text \<open>The loop that fills \<^verbatim>\<open>category_data\<close>, a dict in insertion order: an association
  list with one pair per key.\<close>

fun group_rows ::
  "(string \<times> string \<times> string option \<times> real option) list \<Rightarrow> (string \<times> entry list) list \<Rightarrow>
     (string \<times> entry list) list" where
  "group_rows [] category_data = category_data"
| "group_rows ((category, exercise_name, r, t) # rest) category_data =
     (let result = truthy_text r;
          rating = truthy_number t;
          category_data1 =
            (if category \<in> set (map fst category_data) then category_data
             else category_data @ [(category, [])])
      in group_rows rest
           (map (\<lambda>(k, v). if k = category
                   then (k, v @ [\<lparr>e_exercise = exercise_name, e_result = result,
                                   e_rating = rating\<rparr>])
                   else (k, v)) category_data1))"

definition get_categories_and_exercises_with_ratings ::
  "store \<Rightarrow> int \<Rightarrow> (string \<times> entry list) list" where
  "get_categories_and_exercises_with_ratings s player_id = group_rows (progress_rows s player_id) []"

subsection \<open>Team management\<close>

text \<open>\<^verbatim>\<open>create_team\<close>.  The first \<^verbatim>\<open>SELECT\<close> binds the name only.  The second binds
  \<^verbatim>\<open>coach_id\<close>, which raises \<^verbatim>\<open>OverflowError\<close> when the int does not fit 64 bits.  The
  \<^verbatim>\<open>INSERT\<close> draws a rowid, which fails when the rowids of the table are used up.\<close>

definition create_team :: "store \<Rightarrow> string \<Rightarrow> int \<Rightarrow> (error + unit) \<times> store" where
  "create_team s team_name coach_id =
     (case find (\<lambda>t. tm_name t = team_name) (TEAM s) of
        Some team \<Rightarrow> (Inl (ValueError ''Team name already exists''), s)
      | None \<Rightarrow>
          if \<not> fits_int64 coach_id then (Inl OverflowError, s)
          else
            (case find (\<lambda>t. tm_coach_id t = coach_id) (TEAM s) of
               Some existing_team \<Rightarrow> (Inl (ValueError ''Coach already has a team''), s)
             | None \<Rightarrow>
                 if rowid_exhausted (seq_TEAM s) (map tm_id (TEAM s)) then (Inl OperationalError, s)
                 else
                   (let i = next_rowid (seq_TEAM s) (map tm_id (TEAM s))
                    in (Inr (),
                        s\<lparr>TEAM := TEAM s @
                             [\<lparr>tm_id = i, tm_name = team_name, tm_coach_id = coach_id\<rparr>],
                          seq_TEAM := i\<rparr>))))"

text \<open>\<^verbatim>\<open>join_team\<close>.  The two \<^verbatim>\<open>SELECT\<close>s bind the name and the coach id read from the
  team's row.  The \<^verbatim>\<open>UPDATE\<close> binds \<^verbatim>\<open>player_id\<close>, which raises \<^verbatim>\<open>OverflowError\<close> when
  the int does not fit 64 bits.\<close>

definition join_team :: "store \<Rightarrow> string \<Rightarrow> int \<Rightarrow> (error + unit) \<times> store" where
  "join_team s team_name player_id =
     (case find (\<lambda>t. tm_name t = team_name) (TEAM s) of
        None \<Rightarrow> (Inl (ValueError ''Team not found''), s)
      | Some team \<Rightarrow>
          (let team_id = tm_id team; coach_id = tm_coach_id team in
           case find (\<lambda>c. co_id c = coach_id) (COACH s) of
             None \<Rightarrow> (Inl (ValueError ''Coach not found''), s)
           | Some coach \<Rightarrow>
               (let coach_name = co_name coach; coach_email = co_email coach
                in if \<not> fits_int64 player_id then (Inl OverflowError, s)
                   else
                     (Inr (),
                      s\<lparr>PLAYER := map (\<lambda>p. if pl_id p = player_id
                                      then p\<lparr>pl_team_id := Some team_id,
                                             pl_coach := Some coach_name,
                                             pl_coachEmail := Some coach_email\<rparr>
                                      else p) (PLAYER s)\<rparr>))))"

subsection \<open>Parent-child linking\<close>

text \<open>The \<^verbatim>\<open>PARENT_PLAYER\<close> table declares no constraint besides its primary key and
  \<^verbatim>\<open>NOT NULL\<close>, and the \<^verbatim>\<open>INSERT OR IGNORE\<close> supplies two values that were just read
  from existing rows: there is no conflict for \<^verbatim>\<open>OR IGNORE\<close> to drop the row on.\<close>

definition link_child :: "store \<Rightarrow> string \<Rightarrow> int \<Rightarrow> (error + unit) \<times> store" where
  "link_child s child_username parent_id =
     (case find (\<lambda>p. pl_username p = child_username) (PLAYER s) of
        None \<Rightarrow> (Inl (ValueError ''Child not found''), s)
      | Some child \<Rightarrow>
          (let child_id = pl_id child; child_name = pl_name child; child_email = pl_email child in
           case find (\<lambda>p. pa_id p = parent_id) (PARENT s) of
             None \<Rightarrow> (Inl (ValueError ''Parent not found''), s)
           | Some parent \<Rightarrow>
               (let parent_name = pa_name parent; parent_email = pa_email parent;
                    s1 = s\<lparr>PARENT := map (\<lambda>p. if pa_id p = parent_id
                                    then p\<lparr>pa_child_name := Some child_name,
                                           pa_child_email := Some child_email\<rparr>
                                    else p) (PARENT s)\<rparr>;
                    s2 = s1\<lparr>PLAYER := map (\<lambda>p. if pl_id p = child_id
                                    then p\<lparr>pl_parent := Some parent_name,
                                           pl_parentEmail := Some parent_email\<rparr>
                                    else p) (PLAYER s1)\<rparr>;
                    i = next_rowid (seq_PARENT_PLAYER s2) (map pp_id (PARENT_PLAYER s2))
                in (Inr (),
                    s2\<lparr>PARENT_PLAYER := PARENT_PLAYER s2 @
                         [\<lparr>pp_id = i, pp_parent_id = parent_id, pp_player_id = child_id\<rparr>],
                       seq_PARENT_PLAYER := i\<rparr>))))"


subsection \<open>Exercise result update\<close>

text \<open>The argument of \<^verbatim>\<open>update_exercise\<close> is a dict; \<^verbatim>\<open>data.get\<close> gives \<^verbatim>\<open>None\<close> for a
  missing key.  The rating is a number as Python holds one: an int of any size, or a float,
  which is a finite value, an infinity or NaN.  A finite float is modelled by the real
  number it denotes, and \<^verbatim>\<open>True\<close> and \<^verbatim>\<open>False\<close> are the ints 1 and 0.  Ratings of other
  types (a string, say) are left out of the model.\<close>

datatype number = PyInt int | PyFloat real | PyInf | PyNegInf | PyNaN

record exercise_data =
  d_exercise :: "string option"
  d_playerId :: "int option"
  d_result :: "string option"
  d_rating :: "number option"

text \<open>The returned dict, \<^verbatim>\<open>{"message": ...}\<close> or \<^verbatim>\<open>{"error": ...}\<close>.\<close>

datatype reply = Reply_message string | Reply_error string

text \<open>\<^verbatim>\<open>rating == 0\<close> in Python: true of the int 0 and of the float 0.0, false of \<^verbatim>\<open>None\<close>.\<close>

fun eq_zero :: "number option \<Rightarrow> bool" where
  "eq_zero None = False"
| "eq_zero (Some (PyInt n)) = (n = 0)"
| "eq_zero (Some (PyFloat x)) = (x = 0)"
| "eq_zero (Some PyInf) = False"
| "eq_zero (Some PyNegInf) = False"
| "eq_zero (Some PyNaN) = False"

text \<open>Whether the \<^verbatim>\<open>sqlite3\<close> module can bind the rating: an int must fit 64 bits, a float
  always binds.\<close>

fun rating_binds :: "number option \<Rightarrow> bool" where
  "rating_binds (Some (PyInt n)) = fits_int64 n"
| "rating_binds _ = True"

text \<open>The value that arrives in the rating column.  NaN is bound as \<^verbatim>\<open>NULL\<close>.  The column
  has \<^verbatim>\<open>INTEGER\<close> affinity: a float without a fraction is stored as the integer of the same
  value, any other float as it is.  An infinity never arrives, the \<^verbatim>\<open>CHECK\<close> below rejects
  it; the value given for it here is never stored.\<close>

fun column_value :: "number option \<Rightarrow> real option" where
  "column_value None = None"
| "column_value (Some (PyInt n)) = Some (of_int n)"
| "column_value (Some (PyFloat x)) = Some x"
| "column_value (Some PyInf) = None"
| "column_value (Some PyNegInf) = None"
| "column_value (Some PyNaN) = None"

text \<open>\<^verbatim>\<open>CHECK (rating BETWEEN 1 AND 5)\<close>: a \<^verbatim>\<open>CHECK\<close> fails only when its expression is
  false, and a comparison with \<^verbatim>\<open>NULL\<close> is not.  First on a stored value, then on the
  value a rating would bind.\<close>

definition rating_check :: "real option \<Rightarrow> bool" where
  "rating_check rating = (case rating of None \<Rightarrow> True | Some x \<Rightarrow> 1 \<le> x \<and> x \<le> 5)"

fun passes_check :: "number option \<Rightarrow> bool" where
  "passes_check (Some PyInf) = False"
| "passes_check (Some PyNegInf) = False"
| "passes_check rating = rating_check (column_value rating)"

text \<open>The \<^verbatim>\<open>SET\<close> clause built in \<^verbatim>\<open>fields_to_update\<close>, applied to one row: the result
  when it is neither \<^verbatim>\<open>None\<close> nor \<^verbatim>\<open>N/A\<close>, the rating when it is neither \<^verbatim>\<open>None\<close> nor 0.\<close>

definition set_fields :: "exercise_data \<Rightarrow> player_exercise \<Rightarrow> player_exercise" where
  "set_fields data r =
     r\<lparr>pe_result :=
         (if d_result data \<noteq> None \<and> d_result data \<noteq> Some ''N/A'' then d_result data
          else pe_result r),
       pe_rating :=
         (if d_rating data \<noteq> None \<and> \<not> eq_zero (d_rating data) then column_value (d_rating data)
          else pe_rating r)\<rparr>"

text \<open>Whether the parameters in \<^verbatim>\<open>values\<close> can be bound: the rating, when it is among them,
  and \<^verbatim>\<open>playerId\<close>.  (The result is text and the exercise id was read from the table.)\<close>

definition values_bind :: "exercise_data \<Rightarrow> bool" where
  "values_bind data \<longleftrightarrow>
     (d_rating data = None \<or> eq_zero (d_rating data) \<or> rating_binds (d_rating data)) \<and>
     (case d_playerId data of None \<Rightarrow> True | Some p \<Rightarrow> fits_int64 p)"

text \<open>\<^verbatim>\<open>update_exercise\<close>.  \<^verbatim>\<open>not exercise_name\<close> holds for \<^verbatim>\<open>None\<close> and for the empty
  string.  The \<^verbatim>\<open>UPDATE\<close> sets the fields collected in \<^verbatim>\<open>fields_to_update\<close> in every row
  with this player and exercise; \<^verbatim>\<open>player_id = ?\<close> is true of no row when the parameter
  is \<^verbatim>\<open>NULL\<close>.  Binding the parameters comes first and raises \<^verbatim>\<open>OverflowError\<close> for an int
  that does not fit.  When a row that the statement writes violates the \<^verbatim>\<open>CHECK\<close> on the
  rating, the statement is undone and \<^verbatim>\<open>IntegrityError\<close> is raised.  Either exception is
  raised again by the \<^verbatim>\<open>except\<close> clause.  \<^verbatim>\<open>cursor.rowcount\<close> is the number of rows the
  \<^verbatim>\<open>WHERE\<close> clause selected.\<close>

definition update_exercise :: "store \<Rightarrow> exercise_data \<Rightarrow> (error + reply) \<times> store" where
  "update_exercise s data =
     (let exercise_name = d_exercise data; playerId = d_playerId data;
          result = d_result data; rating = d_rating data in
      if exercise_name = None \<or> exercise_name = Some [] then
        (Inl (ValueError ''Exercise name is required''), s)
      else if (result = None \<or> result = Some ''N/A'') \<and> (rating = None \<or> eq_zero rating) then
        (Inl (ValueError
           (''At least one of '' @ [CHR 0x27] @ ''result'' @ [CHR 0x27] @ '' or '' @ [CHR 0x27] @
            ''rating'' @ [CHR 0x27] @ '' must be provided and valid'')), s)
      else
        case find (\<lambda>e. Some (ex_name e) = exercise_name) (EXERCISE s) of
          None \<Rightarrow>
            (Inl (ValueError
               (''Exercise '' @ [CHR 0x27] @ (case exercise_name of None \<Rightarrow> [] | Some n \<Rightarrow> n) @
                [CHR 0x27] @ '' not found'')), s)
        | Some exercise_id_row \<Rightarrow>
            (let exercise_id = ex_id exercise_id_row;
                 set_rating = (rating \<noteq> None \<and> \<not> eq_zero rating);
                 selected = (\<lambda>r. Some (pe_player_id r) = playerId \<and> pe_exercise_id r = exercise_id);
                 rowcount = length (filter selected (PLAYER_EXERCISE s))
             in
               if \<not> values_bind data then (Inl OverflowError, s)
               else if set_rating \<and> 0 < rowcount \<and> \<not> passes_check rating
               then (Inl IntegrityError, s)
               else
                 (let s' = s\<lparr>PLAYER_EXERCISE :=
                             map (\<lambda>r. if selected r then set_fields data r else r)
                               (PLAYER_EXERCISE s)\<rparr>
                  in if 0 < rowcount
                     then (Inr (Reply_message ''Exercise updated successfully.''), s')
                     else (Inr (Reply_error ''No matching exercise found for this player.''), s'))))"

section \<open>Reachable stores\<close>

text \<open>The stores that the public operations produce from the empty one.  The methods
  that only read (\<^verbatim>\<open>get_user\<close>, \<^verbatim>\<open>get_user_by_email\<close>, \<^verbatim>\<open>get_team_by_coach\<close>,
  \<^verbatim>\<open>get_categories_and_exercises_with_ratings\<close>) leave the store as it is.  A call that
  raises leaves the store it started from, which the second component of its result is.\<close>

inductive reachable :: "store \<Rightarrow> bool" where
  r_empty: "reachable empty_store"
| r_initialize: "reachable s \<Longrightarrow> reachable (snd (initialize_database s))"
| r_add_user:
    "reachable s \<Longrightarrow>
     reachable (snd (add_user s username password email name birthYear country role number team_id))"
| r_update_user: "reachable s \<Longrightarrow> update_user s role s' \<Longrightarrow> reachable s'"
| r_delete_user: "reachable s \<Longrightarrow> reachable (delete_user s i)"
| r_create_team: "reachable s \<Longrightarrow> reachable (snd (create_team s team_name coach_id))"
| r_update_exercise: "reachable s \<Longrightarrow> reachable (snd (update_exercise s data))"
| r_join_team: "reachable s \<Longrightarrow> reachable (snd (join_team s team_name player_id))"
| r_link_child: "reachable s \<Longrightarrow> reachable (snd (link_child s child_username parent_id))"

text \<open>Facts about the rows of \<^verbatim>\<open>PLAYER_EXERCISE\<close> and \<^verbatim>\<open>EXERCISE\<close> that every operation
  keeps: no \<^verbatim>\<open>PLAYER_EXERCISE\<close> row names a player id above the \<^verbatim>\<open>PLAYER\<close> counter, no two
  of them have the same player and exercise, and exercise ids are distinct.\<close>

definition rows_inv :: "store \<Rightarrow> bool" where
  "rows_inv s \<longleftrightarrow>
     list_all (\<lambda>r. pe_player_id r \<le> seq_PLAYER s) (PLAYER_EXERCISE s) \<and>
     distinct (map (\<lambda>r. (pe_player_id r, pe_exercise_id r)) (PLAYER_EXERCISE s)) \<and>
     distinct (map ex_id (EXERCISE s))"

text \<open>Every stored rating passes the \<^verbatim>\<open>CHECK\<close>.\<close>

definition ratings_ok :: "store \<Rightarrow> bool" where
  "ratings_ok s \<longleftrightarrow> list_all (\<lambda>r. rating_check (pe_rating r)) (PLAYER_EXERCISE s)"


text \<open>The columns of a \<^verbatim>\<open>PLAYER_EXERCISE\<close> row besides its rowid.\<close>

definition pe_fields :: "player_exercise \<Rightarrow> int \<times> int \<times> string option \<times> real option" where
  "pe_fields r = (pe_player_id r, pe_exercise_id r, pe_result r, pe_rating r)"

text \<open>The rows that the \<^verbatim>\<open>WHERE player_id = ? AND exercise_id = ?\<close> of \<^verbatim>\<open>update_exercise\<close>
  selects, once the exercise name is resolved; their number is \<^verbatim>\<open>cursor.rowcount\<close>.\<close>

definition selected_rows :: "store \<Rightarrow> exercise_data \<Rightarrow> player_exercise list" where
  "selected_rows s data =
     (case find (\<lambda>e. Some (ex_name e) = d_exercise data) (EXERCISE s) of
        None \<Rightarrow> []
      | Some e \<Rightarrow>
          filter (\<lambda>r. Some (pe_player_id r) = d_playerId data \<and> pe_exercise_id r = ex_id e)
            (PLAYER_EXERCISE s))"

text \<open>The two checks at the head of \<^verbatim>\<open>update_exercise\<close> let the call through.\<close>

definition passes_validation :: "exercise_data \<Rightarrow> bool" where
  "passes_validation data \<longleftrightarrow>
     \<not> (d_exercise data = None \<or> d_exercise data = Some []) \<and>
     \<not> ((d_result data = None \<or> d_result data = Some ''N/A'') \<and>
        (d_rating data = None \<or> eq_zero (d_rating data)))"

text \<open>The two \<^verbatim>\<open>ValueError\<close>s that \<^verbatim>\<open>update_exercise\<close> raises for bad input.\<close>

definition InvalidInput :: "error \<Rightarrow> bool" where
  "InvalidInput e \<longleftrightarrow>
     e = ValueError ''Exercise name is required'' \<or>
     e = ValueError
           (''At least one of '' @ [CHR 0x27] @ ''result'' @ [CHR 0x27] @ '' or '' @ [CHR 0x27] @
            ''rating'' @ [CHR 0x27] @ '' must be provided and valid'')"

subsection \<open>Example stores\<close>

text \<open>A new database file after the constructor ran, then with the player of the
  spec's example registered, then with a parent and a coach as well.\<close>

definition store_seeded :: store where
  "store_seeded = snd (initialize_database empty_store)"

definition store_ana :: store where
  "store_ana =
     snd (add_user store_seeded ''ana'' ''pw'' ''ana@x.com'' ''Ana'' 2012 ''ES'' ''player'' None None)"

definition store_family :: store where
  "store_family =
     snd (add_user
       (snd (add_user store_ana ''mom'' ''pw'' ''mom@x.com'' ''Mia'' 1980 ''ES'' ''parent'' None None))
       ''bob'' ''pw'' ''ana@x.com'' ''Bob'' 1975 ''ES'' ''coach'' None None)"

subsection \<open>Example calls of update_exercise\<close>

definition data_rating9 :: exercise_data where
  "data_rating9 =
     \<lparr>d_exercise = Some ''Stepovers'', d_playerId = Some 1, d_result = None, d_rating = Some (PyInt 9)\<rparr>"

definition data_rating3 :: exercise_data where
  "data_rating3 =
     \<lparr>d_exercise = Some ''Stepovers'', d_playerId = Some 1, d_result = None, d_rating = Some (PyInt 3)\<rparr>"

definition data_no_player :: exercise_data where
  "data_no_player =
     \<lparr>d_exercise = Some ''Stepovers'', d_playerId = Some 99, d_result = None, d_rating = Some (PyInt 3)\<rparr>"

definition data_empty_name :: exercise_data where
  "data_empty_name =
     \<lparr>d_exercise = Some [], d_playerId = Some 1, d_result = None, d_rating = Some (PyInt 3)\<rparr>"

definition data_empty_result :: exercise_data where
  "data_empty_result =
     \<lparr>d_exercise = Some ''Stepovers'', d_playerId = Some 1, d_result = Some [], d_rating = Some (PyInt 4)\<rparr>"

definition data_rating_half :: exercise_data where
  "data_rating_half =
     \<lparr>d_exercise = Some ''Stepovers'', d_playerId = Some 1, d_result = None,
      d_rating = Some (PyFloat (7 / 2))\<rparr>"

definition data_big_player :: exercise_data where
  "data_big_player =
     \<lparr>d_exercise = Some ''Stepovers'', d_playerId = Some 9223372036854775808, d_result = None,
      d_rating = Some (PyInt 3)\<rparr>"

definition data_placeholders :: exercise_data where
  "data_placeholders =
     \<lparr>d_exercise = Some ''Stepovers'', d_playerId = Some 1, d_result = Some ''N/A'',
      d_rating = Some (PyInt 0)\<rparr>"

text \<open>The example store after the coach created a team.\<close>

definition store_team :: store where
  "store_team = snd (create_team store_family ''Lions'' 1)"

text \<open>The example store after the player stored the empty string as a result.\<close>

definition store_empty_result :: store where
  "store_empty_result = snd (update_exercise store_ana data_empty_result)"

text \<open>The example store after the player rated an exercise 3, and after a rating of 3.5.\<close>

definition store_rated :: store where
  "store_rated = snd (update_exercise store_ana data_rating3)"

definition store_half :: store where
  "store_half = snd (update_exercise store_ana data_rating_half)"

section \<open>Properties\<close>

subsection \<open>Fresh rowids\<close>

lemma fold_max_ge: "(a::int) \<le> fold max ids a"
proof (induction ids arbitrary: a)
  case Nil
  show ?case by simp
next
  case (Cons x xs)
  have "max x a \<le> fold max xs (max x a)" by (rule Cons.IH)
  then show ?case by simp
qed

lemma fold_max_mem: "i \<in> set ids \<Longrightarrow> (i::int) \<le> fold max ids a"
proof (induction ids arbitrary: a)
  case Nil
  then show ?case by simp
next
  case (Cons x xs)
  show ?case
  proof (cases "i = x")
    case True
    have "max x a \<le> fold max xs (max x a)" by (rule fold_max_ge)
    with True show ?thesis by simp
  next
    case False
    with Cons.prems have "i \<in> set xs" by simp
    then have "i \<le> fold max xs (max x a)" by (rule Cons.IH)
    then show ?thesis by simp
  qed
qed

lemma next_rowid_gt: "i \<in> set ids \<Longrightarrow> i < next_rowid seq ids"
proof (cases ids)
  case Nil
  assume "i \<in> set ids"
  with Nil show ?thesis by simp
next
  case (Cons x xs)
  assume mem: "i \<in> set ids"
  have "i \<le> fold max xs x"
  proof (cases "i = x")
    case True
    then show ?thesis by (simp add: fold_max_ge)
  next
    case False
    with mem Cons have "i \<in> set xs" by simp
    then show ?thesis by (rule fold_max_mem)
  qed
  with Cons show ?thesis by (simp add: next_rowid_def)
qed

lemma next_rowid_seq: "seq < next_rowid seq ids"
  by (simp add: next_rowid_def max_def)

lemma next_rowid_fresh: "next_rowid seq ids \<notin> set ids"
  using next_rowid_gt [of "next_rowid seq ids" ids seq] by auto

subsection \<open>Bootstrap\<close>

lemma insert_or_ignore_category_other:
  "PLAYER_EXERCISE (insert_or_ignore_category n s) = PLAYER_EXERCISE s"
  "EXERCISE (insert_or_ignore_category n s) = EXERCISE s"
  "seq_PLAYER (insert_or_ignore_category n s) = seq_PLAYER s"
  by (simp_all add: insert_or_ignore_category_def Let_def)

lemma fold_category_other:
  "PLAYER_EXERCISE (fold insert_or_ignore_category ns s) = PLAYER_EXERCISE s \<and>
   EXERCISE (fold insert_or_ignore_category ns s) = EXERCISE s \<and>
   seq_PLAYER (fold insert_or_ignore_category ns s) = seq_PLAYER s"
  by (induction ns arbitrary: s) (simp_all add: insert_or_ignore_category_other)

lemma insert_or_ignore_exercise_other:
  "PLAYER_EXERCISE (insert_or_ignore_exercise c n s) = PLAYER_EXERCISE s"
  "seq_PLAYER (insert_or_ignore_exercise c n s) = seq_PLAYER s"
  by (simp_all add: insert_or_ignore_exercise_def Let_def)

lemma insert_or_ignore_exercise_distinct:
  "distinct (map ex_id (EXERCISE s)) \<Longrightarrow>
   distinct (map ex_id (EXERCISE (insert_or_ignore_exercise c n s)))"
  using next_rowid_fresh [of "seq_EXERCISE s" "map ex_id (EXERCISE s)"]
  by (simp add: insert_or_ignore_exercise_def Let_def)

lemma fold_exercise_keeps:
  "distinct (map ex_id (EXERCISE s)) \<Longrightarrow>
   PLAYER_EXERCISE (fold (insert_or_ignore_exercise c) ns s) = PLAYER_EXERCISE s \<and>
   seq_PLAYER (fold (insert_or_ignore_exercise c) ns s) = seq_PLAYER s \<and>
   distinct (map ex_id (EXERCISE (fold (insert_or_ignore_exercise c) ns s)))"
  by (induction ns arbitrary: s)
    (simp_all add: insert_or_ignore_exercise_other insert_or_ignore_exercise_distinct)

lemma seed_exercises_keeps:
  "seed_exercises xs s = Inr s' \<Longrightarrow> distinct (map ex_id (EXERCISE s)) \<Longrightarrow>
   PLAYER_EXERCISE s' = PLAYER_EXERCISE s \<and> seq_PLAYER s' = seq_PLAYER s \<and>
   distinct (map ex_id (EXERCISE s'))"
proof (induction xs s rule: seed_exercises.induct)
  case (1 s)
  then show ?case by simp
next
  case (2 category exercise_list rest s)
  from "2.prems"(1) obtain c where
    c: "find (\<lambda>c. cat_name c = category) (CATEGORY s) = Some c" and
    rest: "seed_exercises rest (fold (insert_or_ignore_exercise (cat_id c)) exercise_list s) = Inr s'"
    by (auto split: option.splits)
  note k = fold_exercise_keeps [OF "2.prems"(2), of "cat_id c" exercise_list]
  from "2.IH" [OF c rest] k show ?case by simp
qed

lemma initialize_database_keeps:
  "distinct (map ex_id (EXERCISE s)) \<Longrightarrow>
   PLAYER_EXERCISE (snd (initialize_database s)) = PLAYER_EXERCISE s \<and>
   seq_PLAYER (snd (initialize_database s)) = seq_PLAYER s \<and>
   distinct (map ex_id (EXERCISE (snd (initialize_database s))))"
proof (cases "seed_exercises exercises (fold insert_or_ignore_category categories s)")
  case (Inl e)
  assume "distinct (map ex_id (EXERCISE s))"
  with Inl show ?thesis by (simp add: initialize_database_def)
next
  case (Inr s')
  assume d: "distinct (map ex_id (EXERCISE s))"
  have "distinct (map ex_id (EXERCISE (fold insert_or_ignore_category categories s)))"
    using d by (simp add: fold_category_other)
  from seed_exercises_keeps [OF Inr this] Inr show ?thesis
    by (simp add: initialize_database_def fold_category_other)
qed

lemma init_empty:
  "initialize_database empty_store =
     (Inr (), empty_store\<lparr>CATEGORY := seed_categories, EXERCISE := seed_exercise_rows,
        seq_CATEGORY := 6, seq_EXERCISE := 17\<rparr>)"
  by (simp add: initialize_database_def empty_store_def categories_def exercises_def
      insert_or_ignore_category_def insert_or_ignore_exercise_def next_rowid_def
      seed_categories_def seed_exercise_rows_def Let_def)

lemma init_seeded:
  "CATEGORY s = seed_categories \<Longrightarrow> EXERCISE s = seed_exercise_rows \<Longrightarrow>
   \<exists>s'. initialize_database s = (Inr (), s') \<and> tables s' = tables s"
  by (simp add: initialize_database_def categories_def exercises_def
      insert_or_ignore_category_def insert_or_ignore_exercise_def tables_def
      seed_categories_def seed_exercise_rows_def Let_def)

lemma init_n_seeded:
  "CATEGORY s = seed_categories \<Longrightarrow> EXERCISE s = seed_exercise_rows \<Longrightarrow>
   \<exists>s'. initialize_n n s = (Inr (), s') \<and> tables s' = tables s"
proof (induction n arbitrary: s)
  case 0
  show ?case by simp
next
  case (Suc n)
  from init_seeded [OF Suc.prems] obtain s1 where
    s1: "initialize_database s = (Inr (), s1)" and t1: "tables s1 = tables s"
    by blast
  from t1 Suc.prems have "CATEGORY s1 = seed_categories" "EXERCISE s1 = seed_exercise_rows"
    by (simp_all add: tables_def)
  from Suc.IH [OF this] obtain s' where
    "initialize_n n s1 = (Inr (), s')" "tables s' = tables s1"
    by blast
  with s1 t1 show ?case by simp
qed

text \<open>Claim C3.  The schema bootstrap is idempotent: for every \<open>N \<ge> 1\<close>, \<open>N\<close> calls in
  sequence from the empty store all return without an exception and leave the six
  categories PAC, SHO, PAS, DRI, DEF, PHY and the seventeen exercises, with the same rows in
  every table as one call leaves.  (Only SQLite's rowid counters of the two seed tables
  move on, since an ignored insert still draws a rowid.)\<close>

theorem initialize_idempotent:
  "1 \<le> N \<Longrightarrow>
   \<exists>s. initialize_n N empty_store = (Inr (), s) \<and>
       map cat_name (CATEGORY s) = categories \<and> length (CATEGORY s) = 6 \<and>
       EXERCISE s = seed_exercise_rows \<and> length (EXERCISE s) = 17 \<and>
       tables s = tables (snd (initialize_n 1 empty_store))"
proof -
  assume "1 \<le> N"
  then obtain n where N: "N = Suc n" by (cases N) simp_all
  define s1 where "s1 = empty_store\<lparr>CATEGORY := seed_categories, EXERCISE := seed_exercise_rows,
        seq_CATEGORY := 6, seq_EXERCISE := 17\<rparr>"
  have c1: "CATEGORY s1 = seed_categories" and e1: "EXERCISE s1 = seed_exercise_rows"
    by (simp_all add: s1_def)
  from init_n_seeded [OF c1 e1, of n] obtain s where
    s: "initialize_n n s1 = (Inr (), s)" and ts: "tables s = tables s1"
    by blast
  have run: "initialize_n N empty_store = (Inr (), s)"
    using s by (simp add: N init_empty s1_def)
  have one: "snd (initialize_n 1 empty_store) = s1"
    by (simp add: init_empty s1_def)
  from ts c1 e1 have cs: "CATEGORY s = seed_categories" and es: "EXERCISE s = seed_exercise_rows"
    by (simp_all add: tables_def)
  have "map cat_name (CATEGORY s) = categories"
    by (simp add: cs seed_categories_def categories_def)
  moreover have "length (CATEGORY s) = 6" by (simp add: cs seed_categories_def)
  moreover have "length (EXERCISE s) = 17" by (simp add: es seed_exercise_rows_def)
  ultimately show ?thesis using run es ts one by simp
qed

theorem initialize_idempotent_witness:
  "(1::nat) \<le> 3 \<and>
   (\<exists>s. initialize_n 3 empty_store = (Inr (), s) \<and>
       map cat_name (CATEGORY s) = categories \<and> length (CATEGORY s) = 6 \<and>
       EXERCISE s = seed_exercise_rows \<and> length (EXERCISE s) = 17 \<and>
       tables s = tables (snd (initialize_n 1 empty_store)))"
proof -
  have h: "(1::nat) \<le> 3" by simp
  from initialize_idempotent [OF h] h show ?thesis by simp
qed

subsection \<open>add_user\<close>


lemma insert_player_exercise_other:
  "PLAYER (insert_player_exercise row s) = PLAYER s"
  "COACH (insert_player_exercise row s) = COACH s"
  "TEAM (insert_player_exercise row s) = TEAM s"
  "PARENT (insert_player_exercise row s) = PARENT s"
  "CATEGORY (insert_player_exercise row s) = CATEGORY s"
  "PARENT_PLAYER (insert_player_exercise row s) = PARENT_PLAYER s"
  "EXERCISE (insert_player_exercise row s) = EXERCISE s"
  "seq_PLAYER (insert_player_exercise row s) = seq_PLAYER s"
  by (simp_all add: insert_player_exercise_def Let_def)

lemma fold_insert_player_exercise_other:
  "PLAYER (fold insert_player_exercise rows s) = PLAYER s \<and>
   COACH (fold insert_player_exercise rows s) = COACH s \<and>
   TEAM (fold insert_player_exercise rows s) = TEAM s \<and>
   PARENT (fold insert_player_exercise rows s) = PARENT s \<and>
   CATEGORY (fold insert_player_exercise rows s) = CATEGORY s \<and>
   PARENT_PLAYER (fold insert_player_exercise rows s) = PARENT_PLAYER s \<and>
   EXERCISE (fold insert_player_exercise rows s) = EXERCISE s \<and>
   seq_PLAYER (fold insert_player_exercise rows s) = seq_PLAYER s"
  by (induction rows arbitrary: s) (simp_all add: insert_player_exercise_other)

lemma fold_insert_player_exercise_rows:
  "\<exists>new. PLAYER_EXERCISE (fold insert_player_exercise rows s) = PLAYER_EXERCISE s @ new \<and>
         map pe_fields new = map (\<lambda>row. (fst row, snd row, None, None)) rows"
proof (induction rows arbitrary: s)
  case Nil
  show ?case by simp
next
  case (Cons row rows)
  from Cons.IH [of "insert_player_exercise row s"] obtain new where
    new: "PLAYER_EXERCISE (fold insert_player_exercise rows (insert_player_exercise row s)) =
            PLAYER_EXERCISE (insert_player_exercise row s) @ new"
      "map pe_fields new = map (\<lambda>row. (fst row, snd row, None, None)) rows"
    by blast
  obtain r where r: "PLAYER_EXERCISE (insert_player_exercise row s) = PLAYER_EXERCISE s @ [r]"
      "pe_fields r = (fst row, snd row, None, None)"
    by (simp add: insert_player_exercise_def Let_def pe_fields_def)
  show ?case
  proof (intro exI conjI)
    show "PLAYER_EXERCISE (fold insert_player_exercise (row # rows) s) = PLAYER_EXERCISE s @ (r # new)"
      using new(1) r(1) by simp
    show "map pe_fields (r # new) = map (\<lambda>row. (fst row, snd row, None, None)) (row # rows)"
      using new(2) r(2) by simp
  qed
qed

lemma add_user_effect:
  assumes "add_user s username password email name birthYear country role number team_id = (res, s')"
  shows "EXERCISE s' = EXERCISE s \<and>
    ((role = ''player'' \<and>
      (\<exists>uid new. res = Inr uid \<and> uid = next_rowid (seq_PLAYER s) (map pl_id (PLAYER s)) \<and>
         seq_PLAYER s' = uid \<and> PLAYER_EXERCISE s' = PLAYER_EXERCISE s @ new \<and>
         map pe_fields new = map (\<lambda>e. (uid, ex_id e, None, None)) (EXERCISE s))) \<or>
     ((role \<noteq> ''player'' \<or> (\<exists>e. res = Inl e)) \<and>
      PLAYER_EXERCISE s' = PLAYER_EXERCISE s \<and> seq_PLAYER s' = seq_PLAYER s))"
proof (cases "role = ''player'' \<and> username \<notin> set (map pl_username (PLAYER s)) \<and>
    email \<notin> set (map pl_email (PLAYER s))")
  case False
  with assms show ?thesis
    by (auto simp: add_user_def Let_def split: if_splits)
next
  case True
  define uid where "uid = next_rowid (seq_PLAYER s) (map pl_id (PLAYER s))"
  define s1 where "s1 = s\<lparr>PLAYER := PLAYER s @
                      [\<lparr>pl_id = uid, pl_username = username, pl_password = password,
                        pl_email = email, pl_name = name, pl_picture = None,
                        pl_birthYear = birthYear, pl_country = country,
                        pl_number = Some (case number of None \<Rightarrow> 0 | Some n \<Rightarrow> n),
                        pl_parent = None, pl_parentEmail = None,
                        pl_parentPhone = None, pl_coach = None, pl_coachEmail = None,
                        pl_coachPhone = None, pl_team = None, pl_shirtNumber = None,
                        pl_team_id = team_id\<rparr>],
                    seq_PLAYER := uid\<rparr>"
  define rows where "rows = map (\<lambda>exercise_id. (uid, exercise_id)) (map ex_id (EXERCISE s))"
  from assms True have res: "res = Inr uid" and s': "s' = fold insert_player_exercise rows s1"
    by (simp_all add: add_user_def Let_def uid_def s1_def rows_def)
  from fold_insert_player_exercise_rows [of rows s1] obtain new where
    new: "PLAYER_EXERCISE s' = PLAYER_EXERCISE s1 @ new"
      "map pe_fields new = map (\<lambda>row. (fst row, snd row, None, None)) rows"
    unfolding s' by blast
  have "EXERCISE s' = EXERCISE s" "seq_PLAYER s' = uid"
    using fold_insert_player_exercise_other [of rows s1] by (simp_all add: s' s1_def)
  moreover have "PLAYER_EXERCISE s' = PLAYER_EXERCISE s @ new"
    using new(1) by (simp add: s1_def)
  moreover have "map pe_fields new = map (\<lambda>e. (uid, ex_id e, None, None)) (EXERCISE s)"
    using new(2) by (simp add: rows_def comp_def)
  ultimately show ?thesis using True res uid_def by blast
qed

lemma new_rows_player:
  assumes "map pe_fields new = map (\<lambda>e. (uid, ex_id e, None, None)) exs"
  shows "list_all (\<lambda>r. pe_player_id r = uid) new"
    and "map (\<lambda>r. (pe_player_id r, pe_exercise_id r)) new = map (\<lambda>e. (uid, ex_id e)) exs"
    and "list_all (\<lambda>r. pe_result r = None \<and> pe_rating r = None) new"
proof -
  have "map (\<lambda>r. fst (pe_fields r)) new = map (\<lambda>e. uid) exs"
    using arg_cong [OF assms, of "map fst"] by (simp add: comp_def)
  then have "map pe_player_id new = map (\<lambda>e. uid) exs" by (simp add: pe_fields_def)
  then have "set (map pe_player_id new) \<subseteq> {uid}" by auto
  then show "list_all (\<lambda>r. pe_player_id r = uid) new" by (auto simp: list_all_iff)
  have "map (\<lambda>r. (fst (pe_fields r), fst (snd (pe_fields r)))) new = map (\<lambda>e. (uid, ex_id e)) exs"
    using arg_cong [OF assms, of "map (\<lambda>x. (fst x, fst (snd x)))"] by (simp add: comp_def)
  then show "map (\<lambda>r. (pe_player_id r, pe_exercise_id r)) new = map (\<lambda>e. (uid, ex_id e)) exs"
    by (simp add: pe_fields_def)
  have "map (\<lambda>r. snd (snd (pe_fields r))) new = map (\<lambda>e. (None, None)) exs"
    using arg_cong [OF assms, of "map (\<lambda>x. snd (snd x))"] by (simp add: comp_def)
  then have "map (\<lambda>r. (pe_result r, pe_rating r)) new = map (\<lambda>e. (None, None)) exs"
    by (simp add: pe_fields_def)
  then have "set (map (\<lambda>r. (pe_result r, pe_rating r)) new) \<subseteq> {(None, None)}" by auto
  then show "list_all (\<lambda>r. pe_result r = None \<and> pe_rating r = None) new"
    by (auto simp: list_all_iff)
qed

lemma rows_inv_add_user:
  assumes inv: "rows_inv s"
  shows "rows_inv (snd (add_user s username password email name birthYear country role number team_id))"
proof -
  obtain res s' where
    eq: "add_user s username password email name birthYear country role number team_id = (res, s')"
    by (cases "add_user s username password email name birthYear country role number team_id")
  note eff = add_user_effect [OF eq]
  from eff have ex: "EXERCISE s' = EXERCISE s" by simp
  from eff consider
    (player) uid new where "uid = next_rowid (seq_PLAYER s) (map pl_id (PLAYER s))"
      "seq_PLAYER s' = uid" "PLAYER_EXERCISE s' = PLAYER_EXERCISE s @ new"
      "map pe_fields new = map (\<lambda>e. (uid, ex_id e, None, None)) (EXERCISE s)"
  | (other) "PLAYER_EXERCISE s' = PLAYER_EXERCISE s" "seq_PLAYER s' = seq_PLAYER s"
    by blast
  then have "rows_inv s'"
  proof cases
    case other
    with inv ex show ?thesis by (simp add: rows_inv_def)
  next
    case player
    have lt: "seq_PLAYER s < uid" unfolding player(1) by (rule next_rowid_seq)
    from inv have old: "\<forall>r\<in>set (PLAYER_EXERCISE s). pe_player_id r \<le> seq_PLAYER s"
      and dold: "distinct (map (\<lambda>r. (pe_player_id r, pe_exercise_id r)) (PLAYER_EXERCISE s))"
      and dex: "distinct (map ex_id (EXERCISE s))"
      by (simp_all add: rows_inv_def list_all_iff)
    note nr = new_rows_player [OF player(4)]
    have a: "list_all (\<lambda>r. pe_player_id r \<le> seq_PLAYER s') (PLAYER_EXERCISE s')"
      using old lt nr(1) by (auto simp: player(2,3) list_all_iff)
    have inj: "inj_on (\<lambda>i. (uid, i)) (set (map ex_id (EXERCISE s)))" by (rule inj_onI) simp
    have "distinct (map (\<lambda>i. (uid, i)) (map ex_id (EXERCISE s)))"
      using dex inj by (simp only: distinct_map)
    then have dnew: "distinct (map (\<lambda>r. (pe_player_id r, pe_exercise_id r)) new)"
      by (simp add: nr(2) comp_def)
    have disj: "set (map (\<lambda>r. (pe_player_id r, pe_exercise_id r)) (PLAYER_EXERCISE s)) \<inter>
        set (map (\<lambda>r. (pe_player_id r, pe_exercise_id r)) new) = {}"
      using old lt nr(1) by (fastforce simp: list_all_iff)
    have b: "distinct (map (\<lambda>r. (pe_player_id r, pe_exercise_id r)) (PLAYER_EXERCISE s'))"
      using dold dnew disj by (simp add: player(3))
    from a b dex ex show ?thesis by (simp add: rows_inv_def)
  qed
  with eq show ?thesis by simp
qed

lemma ratings_ok_add_user:
  assumes ok: "ratings_ok s"
  shows "ratings_ok (snd (add_user s username password email name birthYear country role number team_id))"
proof -
  obtain res s' where
    eq: "add_user s username password email name birthYear country role number team_id = (res, s')"
    by (cases "add_user s username password email name birthYear country role number team_id")
  from add_user_effect [OF eq] consider
    (player) uid new where "PLAYER_EXERCISE s' = PLAYER_EXERCISE s @ new"
      "map pe_fields new = map (\<lambda>e. (uid, ex_id e, None, None)) (EXERCISE s)"
  | (other) "PLAYER_EXERCISE s' = PLAYER_EXERCISE s"
    by blast
  then have "ratings_ok s'"
  proof cases
    case other
    with ok show ?thesis by (simp add: ratings_ok_def)
  next
    case player
    from new_rows_player(3) [OF player(2)] have "list_all (\<lambda>r. rating_check (pe_rating r)) new"
      by (auto simp: list_all_iff rating_check_def)
    with ok show ?thesis by (simp add: ratings_ok_def player(1))
  qed
  with eq show ?thesis by simp
qed


subsection \<open>What update_exercise does to the store\<close>

lemma map_unselected:
  "filter P xs = [] \<Longrightarrow> map (\<lambda>r. if P r then f r else r) xs = xs"
  by (induction xs) (auto split: if_splits)

lemma map_selected_mem:
  "map (\<lambda>r. if r \<in> set (filter P xs) then f r else r) xs = map (\<lambda>r. if P r then f r else r) xs"
  by (rule map_cong) auto

lemma passes_check_column: "passes_check rating \<Longrightarrow> rating_check (column_value rating)"
  by (cases rating rule: passes_check.cases) simp_all

lemma set_fields_kept:
  "pe_id (set_fields data r) = pe_id r"
  "pe_player_id (set_fields data r) = pe_player_id r"
  "pe_exercise_id (set_fields data r) = pe_exercise_id r"
  "d_result data = None \<or> d_result data = Some ''N/A'' \<Longrightarrow>
     pe_result (set_fields data r) = pe_result r"
  "d_rating data = None \<or> eq_zero (d_rating data) \<Longrightarrow> pe_rating (set_fields data r) = pe_rating r"
  by (auto simp: set_fields_def)

lemma written_rows_keys:
  "map (\<lambda>r. (pe_id r, pe_player_id r, pe_exercise_id r))
     (map (\<lambda>r. if Q r then set_fields data r else r) xs) =
   map (\<lambda>r. (pe_id r, pe_player_id r, pe_exercise_id r)) xs"
  by (induction xs) (simp_all add: set_fields_kept)

lemma written_rows_result:
  "d_result data = None \<or> d_result data = Some ''N/A'' \<Longrightarrow>
   map pe_result (map (\<lambda>r. if Q r then set_fields data r else r) xs) = map pe_result xs"
  by (induction xs) (simp_all add: set_fields_kept)

lemma written_rows_rating:
  "d_rating data = None \<or> eq_zero (d_rating data) \<Longrightarrow>
   map pe_rating (map (\<lambda>r. if Q r then set_fields data r else r) xs) = map pe_rating xs"
  by (induction xs) (simp_all add: set_fields_kept)

lemma update_exercise_invalid:
  "\<not> passes_validation data \<Longrightarrow> \<exists>e. update_exercise s data = (Inl e, s)"
  by (auto simp: update_exercise_def passes_validation_def Let_def)

lemma update_exercise_unresolved:
  "find (\<lambda>e. Some (ex_name e) = d_exercise data) (EXERCISE s) = None \<Longrightarrow>
   \<exists>e. update_exercise s data = (Inl e, s)"
  by (auto simp: update_exercise_def Let_def)

lemma update_exercise_resolved:
  assumes "passes_validation data"
    and "find (\<lambda>e. Some (ex_name e) = d_exercise data) (EXERCISE s) = Some e"
  shows "update_exercise s data =
     (if \<not> values_bind data then (Inl OverflowError, s)
      else if d_rating data \<noteq> None \<and> \<not> eq_zero (d_rating data) \<and> selected_rows s data \<noteq> [] \<and>
              \<not> passes_check (d_rating data)
      then (Inl IntegrityError, s)
      else (Inr (if selected_rows s data \<noteq> []
                 then Reply_message ''Exercise updated successfully.''
                 else Reply_error ''No matching exercise found for this player.''),
            s\<lparr>PLAYER_EXERCISE :=
                map (\<lambda>r. if r \<in> set (selected_rows s data) then set_fields data r else r)
                  (PLAYER_EXERCISE s)\<rparr>))"
proof -
  let ?sel = "\<lambda>r. Some (pe_player_id r) = d_playerId data \<and> pe_exercise_id r = ex_id e"
  have sel: "selected_rows s data = filter ?sel (PLAYER_EXERCISE s)"
    by (simp add: selected_rows_def assms(2))
  from assms(1) have n: "\<not> (d_exercise data = None \<or> d_exercise data = Some [])"
    and c: "\<not> ((d_result data = None \<or> d_result data = Some ''N/A'') \<and>
             (d_rating data = None \<or> eq_zero (d_rating data)))"
    by (simp_all add: passes_validation_def)
  show ?thesis
    unfolding sel map_selected_mem
    by (auto simp: update_exercise_def Let_def n c assms(2))
qed

lemma update_exercise_store:
  "snd (update_exercise s data) = s \<or>
   (snd (update_exercise s data) =
      s\<lparr>PLAYER_EXERCISE :=
          map (\<lambda>r. if r \<in> set (selected_rows s data) then set_fields data r else r)
            (PLAYER_EXERCISE s)\<rparr> \<and>
    (d_rating data = None \<or> eq_zero (d_rating data) \<or> selected_rows s data = [] \<or>
     passes_check (d_rating data)))"
proof (cases "passes_validation data")
  case False
  from update_exercise_invalid [OF this, of s] show ?thesis by auto
next
  case True
  show ?thesis
  proof (cases "find (\<lambda>e. Some (ex_name e) = d_exercise data) (EXERCISE s)")
    case None
    from update_exercise_unresolved [OF this] show ?thesis by auto
  next
    case (Some e)
    show ?thesis unfolding update_exercise_resolved [OF True Some] by auto
  qed
qed

lemma selected_rows_subset: "set (selected_rows s data) \<subseteq> set (PLAYER_EXERCISE s)"
  by (auto simp: selected_rows_def split: option.splits)

lemma update_exercise_rows:
  "PLAYER_EXERCISE (snd (update_exercise s data)) = PLAYER_EXERCISE s \<or>
   (PLAYER_EXERCISE (snd (update_exercise s data)) =
      map (\<lambda>r. if r \<in> set (selected_rows s data) then set_fields data r else r)
        (PLAYER_EXERCISE s) \<and>
    (d_rating data = None \<or> eq_zero (d_rating data) \<or> selected_rows s data = [] \<or>
     passes_check (d_rating data)))"
  and update_exercise_frame:
  "(snd (update_exercise s data))\<lparr>PLAYER_EXERCISE := PLAYER_EXERCISE s\<rparr> = s"
  using update_exercise_store [of s data] by auto

lemma update_exercise_rows_cases:
  "PLAYER_EXERCISE (snd (update_exercise s data)) = PLAYER_EXERCISE s \<or>
   PLAYER_EXERCISE (snd (update_exercise s data)) =
      map (\<lambda>r. if r \<in> set (selected_rows s data) then set_fields data r else r)
        (PLAYER_EXERCISE s)"
  using update_exercise_rows [of s data] by blast

lemma update_exercise_keys:
  "map (\<lambda>r. (pe_id r, pe_player_id r, pe_exercise_id r))
     (PLAYER_EXERCISE (snd (update_exercise s data))) =
   map (\<lambda>r. (pe_id r, pe_player_id r, pe_exercise_id r)) (PLAYER_EXERCISE s)"
  using update_exercise_rows_cases [of s data]
proof (elim disjE)
  assume "PLAYER_EXERCISE (snd (update_exercise s data)) = PLAYER_EXERCISE s"
  then show ?thesis by (simp only:)
next
  assume e: "PLAYER_EXERCISE (snd (update_exercise s data)) =
      map (\<lambda>r. if r \<in> set (selected_rows s data) then set_fields data r else r)
        (PLAYER_EXERCISE s)"
  show ?thesis unfolding e by (rule written_rows_keys)
qed

lemma update_exercise_keeps_result:
  assumes "d_result data = None \<or> d_result data = Some ''N/A''"
  shows "map pe_result (PLAYER_EXERCISE (snd (update_exercise s data))) =
         map pe_result (PLAYER_EXERCISE s)"
  using update_exercise_rows_cases [of s data]
proof (elim disjE)
  assume "PLAYER_EXERCISE (snd (update_exercise s data)) = PLAYER_EXERCISE s"
  then show ?thesis by (simp only:)
next
  assume e: "PLAYER_EXERCISE (snd (update_exercise s data)) =
      map (\<lambda>r. if r \<in> set (selected_rows s data) then set_fields data r else r)
        (PLAYER_EXERCISE s)"
  show ?thesis unfolding e using assms by (rule written_rows_result)
qed

lemma update_exercise_keeps_rating:
  assumes "d_rating data = None \<or> eq_zero (d_rating data)"
  shows "map pe_rating (PLAYER_EXERCISE (snd (update_exercise s data))) =
         map pe_rating (PLAYER_EXERCISE s)"
  using update_exercise_rows_cases [of s data]
proof (elim disjE)
  assume "PLAYER_EXERCISE (snd (update_exercise s data)) = PLAYER_EXERCISE s"
  then show ?thesis by (simp only:)
next
  assume e: "PLAYER_EXERCISE (snd (update_exercise s data)) =
      map (\<lambda>r. if r \<in> set (selected_rows s data) then set_fields data r else r)
        (PLAYER_EXERCISE s)"
  show ?thesis unfolding e using assms by (rule written_rows_rating)
qed

lemma update_exercise_effect:
  assumes "update_exercise s data = (res, s')"
  shows "map (\<lambda>r. (pe_player_id r, pe_exercise_id r)) (PLAYER_EXERCISE s') =
           map (\<lambda>r. (pe_player_id r, pe_exercise_id r)) (PLAYER_EXERCISE s)"
    and "EXERCISE s' = EXERCISE s" and "seq_PLAYER s' = seq_PLAYER s"
proof -
  from assms have s': "s' = snd (update_exercise s data)" by simp
  have "map (\<lambda>k. (fst (snd k), snd (snd k)))
          (map (\<lambda>r. (pe_id r, pe_player_id r, pe_exercise_id r)) (PLAYER_EXERCISE s')) =
        map (\<lambda>k. (fst (snd k), snd (snd k)))
          (map (\<lambda>r. (pe_id r, pe_player_id r, pe_exercise_id r)) (PLAYER_EXERCISE s))"
    unfolding s' by (simp only: update_exercise_keys)
  then show "map (\<lambda>r. (pe_player_id r, pe_exercise_id r)) (PLAYER_EXERCISE s') =
           map (\<lambda>r. (pe_player_id r, pe_exercise_id r)) (PLAYER_EXERCISE s)"
    by (simp add: comp_def)
  have "EXERCISE ((snd (update_exercise s data))\<lparr>PLAYER_EXERCISE := PLAYER_EXERCISE s\<rparr>) = EXERCISE s"
    "seq_PLAYER ((snd (update_exercise s data))\<lparr>PLAYER_EXERCISE := PLAYER_EXERCISE s\<rparr>) = seq_PLAYER s"
    by (simp_all only: update_exercise_frame)
  then show "EXERCISE s' = EXERCISE s" "seq_PLAYER s' = seq_PLAYER s"
    unfolding s' by simp_all
qed

lemma ratings_ok_update_exercise:
  assumes "ratings_ok s"
  shows "ratings_ok (snd (update_exercise s data))"
proof -
  from update_exercise_rows [of s data] consider
    (same) "PLAYER_EXERCISE (snd (update_exercise s data)) = PLAYER_EXERCISE s"
  | (written) "PLAYER_EXERCISE (snd (update_exercise s data)) =
          map (\<lambda>r. if r \<in> set (selected_rows s data) then set_fields data r else r)
            (PLAYER_EXERCISE s)"
      "d_rating data = None \<or> eq_zero (d_rating data) \<or> selected_rows s data = [] \<or>
       passes_check (d_rating data)"
    by blast
  then show ?thesis
  proof cases
    case same
    with assms show ?thesis by (simp add: ratings_ok_def)
  next
    case written
    have "rating_check (pe_rating (if r \<in> set (selected_rows s data) then set_fields data r else r))"
      if r: "r \<in> set (PLAYER_EXERCISE s)" for r
    proof (cases "r \<in> set (selected_rows s data) \<and> d_rating data \<noteq> None \<and> \<not> eq_zero (d_rating data)")
      case True
      then have "selected_rows s data \<noteq> []" by auto
      with written(2) True have "passes_check (d_rating data)" by blast
      then have "rating_check (column_value (d_rating data))" by (rule passes_check_column)
      with True show ?thesis by (simp add: set_fields_def)
    next
      case False
      from assms r have "rating_check (pe_rating r)" by (simp add: ratings_ok_def list_all_iff)
      with False show ?thesis by (auto simp: set_fields_kept)
    qed
    then have "list_all
        (\<lambda>r. rating_check (pe_rating (if r \<in> set (selected_rows s data) then set_fields data r else r)))
        (PLAYER_EXERCISE s)"
      unfolding list_all_iff by blast
    then have "list_all (\<lambda>r. rating_check (pe_rating r))
        (map (\<lambda>r. if r \<in> set (selected_rows s data) then set_fields data r else r)
           (PLAYER_EXERCISE s))"
      by (simp only: list.pred_map comp_def)
    then show ?thesis unfolding ratings_ok_def written(1) .
  qed
qed

subsection \<open>The other operations\<close>

lemma rows_inv_update_exercise:
  assumes "rows_inv s"
  shows "rows_inv (snd (update_exercise s data))"
proof -
  obtain res s' where eq: "update_exercise s data = (res, s')"
    by (cases "update_exercise s data")
  note e = update_exercise_effect [OF eq]
  have ids: "map pe_player_id (PLAYER_EXERCISE s') = map pe_player_id (PLAYER_EXERCISE s)"
    using arg_cong [OF e(1), of "map fst"] by (simp add: comp_def)
  from assms have "list_all (\<lambda>i. i \<le> seq_PLAYER s) (map pe_player_id (PLAYER_EXERCISE s))"
    by (simp add: rows_inv_def list_all_iff)
  then have "list_all (\<lambda>i. i \<le> seq_PLAYER s') (map pe_player_id (PLAYER_EXERCISE s'))"
    by (simp only: ids e(3))
  then have "list_all (\<lambda>r. pe_player_id r \<le> seq_PLAYER s') (PLAYER_EXERCISE s')"
    by (simp add: list_all_iff)
  with assms e have "rows_inv s'" by (simp add: rows_inv_def)
  with eq show ?thesis by simp
qed

lemma simple_ops_keep:
  "PLAYER_EXERCISE (delete_user s i) = PLAYER_EXERCISE s"
  "EXERCISE (delete_user s i) = EXERCISE s"
  "seq_PLAYER (delete_user s i) = seq_PLAYER s"
  "PLAYER_EXERCISE (snd (create_team s team_name coach_id)) = PLAYER_EXERCISE s"
  "EXERCISE (snd (create_team s team_name coach_id)) = EXERCISE s"
  "seq_PLAYER (snd (create_team s team_name coach_id)) = seq_PLAYER s"
  "PLAYER_EXERCISE (snd (join_team s team_name player_id)) = PLAYER_EXERCISE s"
  "EXERCISE (snd (join_team s team_name player_id)) = EXERCISE s"
  "seq_PLAYER (snd (join_team s team_name player_id)) = seq_PLAYER s"
  "PLAYER_EXERCISE (snd (link_child s child_username parent_id)) = PLAYER_EXERCISE s"
  "EXERCISE (snd (link_child s child_username parent_id)) = EXERCISE s"
  "seq_PLAYER (snd (link_child s child_username parent_id)) = seq_PLAYER s"
  by (simp_all add: delete_user_def create_team_def join_team_def link_child_def Let_def
      split: option.splits)

lemma update_user_keeps:
  assumes "update_user s role s'"
  shows "PLAYER_EXERCISE s' = PLAYER_EXERCISE s" "EXERCISE s' = EXERCISE s"
    "seq_PLAYER s' = seq_PLAYER s"
  using assms by (auto elim: update_user.cases)

lemma reachable_rows_inv: "reachable s \<Longrightarrow> rows_inv s"
proof (induction rule: reachable.induct)
  case r_empty
  show ?case by (simp add: rows_inv_def empty_store_def)
next
  case (r_initialize s)
  then have "distinct (map ex_id (EXERCISE s))" by (simp add: rows_inv_def)
  from initialize_database_keeps [OF this] r_initialize.IH show ?case
    by (simp add: rows_inv_def)
next
  case (r_add_user s username password email name birthYear country role number team_id)
  then show ?case by (simp add: rows_inv_add_user)
next
  case (r_update_user s role s')
  from update_user_keeps [OF r_update_user.hyps(2)] r_update_user.IH show ?case
    by (simp add: rows_inv_def)
next
  case (r_update_exercise s data)
  then show ?case by (simp add: rows_inv_update_exercise)
qed (simp_all add: rows_inv_def simple_ops_keep)

lemma reachable_ratings_ok: "reachable s \<Longrightarrow> ratings_ok s"
proof (induction rule: reachable.induct)
  case r_empty
  show ?case by (simp add: ratings_ok_def empty_store_def)
next
  case (r_initialize s)
  have "distinct (map ex_id (EXERCISE s))"
    using reachable_rows_inv [OF r_initialize.hyps] by (simp add: rows_inv_def)
  from initialize_database_keeps [OF this] r_initialize.IH show ?case
    by (simp add: ratings_ok_def)
next
  case (r_add_user s username password email name birthYear country role number team_id)
  then show ?case by (simp add: ratings_ok_add_user)
next
  case (r_update_user s role s')
  from update_user_keeps [OF r_update_user.hyps(2)] r_update_user.IH show ?case
    by (simp add: ratings_ok_def)
next
  case (r_update_exercise s data)
  then show ?case by (simp add: ratings_ok_update_exercise)
qed (simp_all add: ratings_ok_def simple_ops_keep)

subsection \<open>The example stores, evaluated\<close>

lemma store_seeded_eq:
  "store_seeded = empty_store\<lparr>CATEGORY := seed_categories, EXERCISE := seed_exercise_rows,
        seq_CATEGORY := 6, seq_EXERCISE := 17\<rparr>"
  by (simp add: store_seeded_def init_empty)

lemma store_ana_rows:
  "PLAYER_EXERCISE store_ana =
     map (\<lambda>i. \<lparr>pe_id = i, pe_player_id = 1, pe_exercise_id = i, pe_result = None, pe_rating = None\<rparr>)
       [1, 2, 3, 4, 5, 6, 7, 8, 9, 10, 11, 12, 13, 14, 15, 16, 17]"
  "EXERCISE store_ana = seed_exercise_rows"
  "CATEGORY store_ana = seed_categories"
  "map pl_id (PLAYER store_ana) = [1]"
  "map pl_username (PLAYER store_ana) = [''ana'']"
  "map pl_email (PLAYER store_ana) = [''ana@x.com'']"
  "COACH store_ana = []" "PARENT store_ana = []" "TEAM store_ana = []" "PARENT_PLAYER store_ana = []"
  "seq_PLAYER store_ana = 1" "seq_COACH store_ana = 0" "seq_PARENT store_ana = 0"
  "seq_PARENT_PLAYER store_ana = 0"
  by (simp_all add: store_ana_def store_seeded_eq empty_store_def add_user_def Let_def
      next_rowid_def insert_player_exercise_def seed_exercise_rows_def seed_categories_def)

lemma reachable_store_ana: "reachable store_ana"
  unfolding store_ana_def store_seeded_def by (intro r_add_user r_initialize r_empty)

subsection \<open>Registration creates the exercise rows\<close>

text \<open>Claim C4.  In a reachable store, when \<^verbatim>\<open>add_user\<close> returns the new id \<open>user_id\<close>:
  for the role player the call appends to \<^verbatim>\<open>PLAYER_EXERCISE\<close> one row per \<^verbatim>\<open>EXERCISE\<close> row
  that existed at the call, in that order, each with the new player id, that exercise's id
  (the ids are distinct), no result and no rating, and these are all the rows with that
  player id; for the roles coach and parent \<^verbatim>\<open>PLAYER_EXERCISE\<close> is as it was.\<close>

theorem add_user_player_exercise_rows:
  assumes "reachable s"
    and "add_user s username password email name birthYear country role number team_id =
           (Inr user_id, s')"
  shows "(role = ''player'' \<longrightarrow>
           (\<exists>new. PLAYER_EXERCISE s' = PLAYER_EXERCISE s @ new \<and>
              map pe_fields new = map (\<lambda>e. (user_id, ex_id e, None, None)) (EXERCISE s) \<and>
              filter (\<lambda>r. pe_player_id r = user_id) (PLAYER_EXERCISE s') = new \<and>
              distinct (map ex_id (EXERCISE s)))) \<and>
         (role = ''coach'' \<or> role = ''parent'' \<longrightarrow> PLAYER_EXERCISE s' = PLAYER_EXERCISE s)"
proof -
  note eff = add_user_effect [OF assms(2)]
  from reachable_rows_inv [OF assms(1)] have
    old: "\<forall>r\<in>set (PLAYER_EXERCISE s). pe_player_id r \<le> seq_PLAYER s" and
    dex: "distinct (map ex_id (EXERCISE s))"
    by (simp_all add: rows_inv_def list_all_iff)
  have other: "PLAYER_EXERCISE s' = PLAYER_EXERCISE s" if "role = ''coach'' \<or> role = ''parent''"
    using eff that by auto
  have player: "\<exists>new. PLAYER_EXERCISE s' = PLAYER_EXERCISE s @ new \<and>
              map pe_fields new = map (\<lambda>e. (user_id, ex_id e, None, None)) (EXERCISE s) \<and>
              filter (\<lambda>r. pe_player_id r = user_id) (PLAYER_EXERCISE s') = new \<and>
              distinct (map ex_id (EXERCISE s))" if "role = ''player''"
  proof -
    from eff that obtain new where
      uid: "user_id = next_rowid (seq_PLAYER s) (map pl_id (PLAYER s))" and
      app: "PLAYER_EXERCISE s' = PLAYER_EXERCISE s @ new" and
      flds: "map pe_fields new = map (\<lambda>e. (user_id, ex_id e, None, None)) (EXERCISE s)"
      by auto
    have lt: "seq_PLAYER s < user_id" unfolding uid by (rule next_rowid_seq)
    have f1: "filter (\<lambda>r. pe_player_id r = user_id) (PLAYER_EXERCISE s) = []"
      using old lt by (auto simp: filter_empty_conv)
    have f2: "filter (\<lambda>r. pe_player_id r = user_id) new = new"
      using new_rows_player(1) [OF flds] by (simp add: list_all_iff)
    show ?thesis using app flds f1 f2 dex by simp
  qed
  from player other show ?thesis by blast
qed

theorem add_user_player_exercise_rows_witness:
  "reachable store_seeded \<and>
   fst (add_user store_seeded ''ana'' ''pw'' ''ana@x.com'' ''Ana'' 2012 ''ES'' ''player'' None None) = Inr 1 \<and>
   (\<exists>new. PLAYER_EXERCISE store_ana = PLAYER_EXERCISE store_seeded @ new \<and>
      map pe_fields new = map (\<lambda>e. (1, ex_id e, None, None)) (EXERCISE store_seeded) \<and>
      filter (\<lambda>r. pe_player_id r = 1) (PLAYER_EXERCISE store_ana) = new \<and> length new = 17) \<and>
   fst (add_user store_ana ''bob'' ''pw'' ''bob@x.com'' ''Bob'' 1975 ''ES'' ''coach'' None None) = Inr 1 \<and>
   PLAYER_EXERCISE
     (snd (add_user store_ana ''bob'' ''pw'' ''bob@x.com'' ''Bob'' 1975 ''ES'' ''coach'' None None)) =
   PLAYER_EXERCISE store_ana"
proof -
  have r0: "reachable store_seeded"
    unfolding store_seeded_def by (intro r_initialize r_empty)
  have fa: "fst (add_user store_seeded ''ana'' ''pw'' ''ana@x.com'' ''Ana'' 2012 ''ES'' ''player'' None None) = Inr 1"
    by (simp add: add_user_def store_seeded_eq empty_store_def Let_def next_rowid_def)
  then have ea: "add_user store_seeded ''ana'' ''pw'' ''ana@x.com'' ''Ana'' 2012 ''ES'' ''player'' None None =
      (Inr 1, store_ana)"
    by (simp add: store_ana_def prod_eq_iff)
  have fb: "fst (add_user store_ana ''bob'' ''pw'' ''bob@x.com'' ''Bob'' 1975 ''ES'' ''coach'' None None) = Inr 1"
    by (simp add: add_user_def store_ana_rows Let_def next_rowid_def)
  then have eb: "add_user store_ana ''bob'' ''pw'' ''bob@x.com'' ''Bob'' 1975 ''ES'' ''coach'' None None =
      (Inr 1, snd (add_user store_ana ''bob'' ''pw'' ''bob@x.com'' ''Bob'' 1975 ''ES'' ''coach'' None None))"
    by (simp add: prod_eq_iff)
  from add_user_player_exercise_rows [OF r0 ea, THEN conjunct1, THEN mp, OF refl] obtain new where
    new: "PLAYER_EXERCISE store_ana = PLAYER_EXERCISE store_seeded @ new"
      "map pe_fields new = map (\<lambda>e. (1, ex_id e, None, None)) (EXERCISE store_seeded)"
      "filter (\<lambda>r. pe_player_id r = 1) (PLAYER_EXERCISE store_ana) = new"
    by blast
  have "length (map pe_fields new) = 17"
    unfolding new(2) by (simp add: store_seeded_eq seed_exercise_rows_def)
  then have "length new = 17" by simp
  with new have ex: "\<exists>new. PLAYER_EXERCISE store_ana = PLAYER_EXERCISE store_seeded @ new \<and>
      map pe_fields new = map (\<lambda>e. (1, ex_id e, None, None)) (EXERCISE store_seeded) \<and>
      filter (\<lambda>r. pe_player_id r = 1) (PLAYER_EXERCISE store_ana) = new \<and> length new = 17"
    by blast
  from add_user_player_exercise_rows [OF reachable_store_ana eb]
  have "PLAYER_EXERCISE
     (snd (add_user store_ana ''bob'' ''pw'' ''bob@x.com'' ''Bob'' 1975 ''ES'' ''coach'' None None)) =
   PLAYER_EXERCISE store_ana" by simp
  with r0 fa ex fb show ?thesis by blast
qed

subsection \<open>Ratings stay within 1 to 5\<close>

lemma selected_examples:
  "selected_rows store_ana data_rating9 =
     [\<lparr>pe_id = 10, pe_player_id = 1, pe_exercise_id = 10, pe_result = None, pe_rating = None\<rparr>]"
  "selected_rows store_ana data_rating3 =
     [\<lparr>pe_id = 10, pe_player_id = 1, pe_exercise_id = 10, pe_result = None, pe_rating = None\<rparr>]"
  "selected_rows store_ana data_no_player = []"
  by (simp_all add: selected_rows_def data_rating9_def data_rating3_def data_no_player_def
      store_ana_rows seed_exercise_rows_def)

lemma validation_examples:
  "passes_validation data_rating9" "passes_validation data_rating3"
  "passes_validation data_no_player" "passes_validation data_rating_half"
  "passes_validation data_big_player"
  by (simp_all add: passes_validation_def data_rating9_def data_rating3_def data_no_player_def
      data_rating_half_def data_big_player_def)

lemma resolves_examples:
  "find (\<lambda>e. Some (ex_name e) = d_exercise data_rating9) (EXERCISE store_ana) =
     Some \<lparr>ex_id = 10, ex_category_id = 4, ex_name = ''Stepovers''\<rparr>"
  "find (\<lambda>e. Some (ex_name e) = d_exercise data_rating3) (EXERCISE store_ana) =
     Some \<lparr>ex_id = 10, ex_category_id = 4, ex_name = ''Stepovers''\<rparr>"
  "find (\<lambda>e. Some (ex_name e) = d_exercise data_no_player) (EXERCISE store_ana) =
     Some \<lparr>ex_id = 10, ex_category_id = 4, ex_name = ''Stepovers''\<rparr>"
  "find (\<lambda>e. Some (ex_name e) = d_exercise data_rating_half) (EXERCISE store_ana) =
     Some \<lparr>ex_id = 10, ex_category_id = 4, ex_name = ''Stepovers''\<rparr>"
  "find (\<lambda>e. Some (ex_name e) = d_exercise data_big_player) (EXERCISE store_ana) =
     Some \<lparr>ex_id = 10, ex_category_id = 4, ex_name = ''Stepovers''\<rparr>"
  by (simp_all add: data_rating9_def data_rating3_def data_no_player_def data_rating_half_def
      data_big_player_def store_ana_rows seed_exercise_rows_def)

lemma store_rated_rows:
  "EXERCISE store_rated = seed_exercise_rows"
  "PLAYER_EXERCISE store_rated =
     map (\<lambda>i. \<lparr>pe_id = i, pe_player_id = 1, pe_exercise_id = i, pe_result = None,
               pe_rating = (if i = 10 then Some 3 else None)\<rparr>)
       [1, 2, 3, 4, 5, 6, 7, 8, 9, 10, 11, 12, 13, 14, 15, 16, 17]"
  by (simp_all add: store_rated_def update_exercise_def Let_def data_rating3_def
      values_bind_def fits_int64_def rating_check_def set_fields_def
      store_ana_rows seed_exercise_rows_def)

lemma store_half_rows:
  "PLAYER_EXERCISE store_half =
     map (\<lambda>i. \<lparr>pe_id = i, pe_player_id = 1, pe_exercise_id = i, pe_result = None,
               pe_rating = (if i = 10 then Some (7 / 2) else None)\<rparr>)
       [1, 2, 3, 4, 5, 6, 7, 8, 9, 10, 11, 12, 13, 14, 15, 16, 17]"
  by (simp add: store_half_def update_exercise_def Let_def data_rating_half_def
      values_bind_def fits_int64_def rating_check_def set_fields_def
      store_ana_rows seed_exercise_rows_def)

lemma reachable_examples: "reachable store_rated" "reachable store_half"
  unfolding store_rated_def store_half_def
  by (intro r_update_exercise reachable_store_ana)+

lemma rejected_rating_given: "\<not> passes_check rating \<Longrightarrow> rating \<noteq> None"
  by (cases rating) (simp_all add: rating_check_def)

lemma update_exercise_rejected_rating:
  assumes bad: "\<not> passes_check (d_rating data)"
  shows "map pe_rating (PLAYER_EXERCISE (snd (update_exercise s data))) =
           map pe_rating (PLAYER_EXERCISE s)"
    and "\<not> eq_zero (d_rating data) \<Longrightarrow> snd (update_exercise s data) = s"
    and "\<not> eq_zero (d_rating data) \<Longrightarrow> selected_rows s data \<noteq> [] \<Longrightarrow>
           \<exists>e. fst (update_exercise s data) = Inl e"
    and "\<not> eq_zero (d_rating data) \<Longrightarrow> selected_rows s data \<noteq> [] \<Longrightarrow>
           passes_validation data \<Longrightarrow> values_bind data \<Longrightarrow>
           fst (update_exercise s data) = Inl IntegrityError"
proof -
  note given = rejected_rating_given [OF bad]
  show "map pe_rating (PLAYER_EXERCISE (snd (update_exercise s data))) =
           map pe_rating (PLAYER_EXERCISE s)"
  proof (cases "eq_zero (d_rating data)")
    case True
    then show ?thesis by (intro update_exercise_keeps_rating) simp
  next
    case False
    with update_exercise_store [of s data] bad given consider
      (same) "snd (update_exercise s data) = s"
    | (none) "snd (update_exercise s data) =
        s\<lparr>PLAYER_EXERCISE :=
            map (\<lambda>r. if r \<in> set (selected_rows s data) then set_fields data r else r)
              (PLAYER_EXERCISE s)\<rparr>" "selected_rows s data = []"
      by blast
    then show ?thesis
    proof cases
      case same
      then show ?thesis by simp
    next
      case none
      then show ?thesis by simp
    qed
  qed
  show "snd (update_exercise s data) = s" if nz: "\<not> eq_zero (d_rating data)"
    using update_exercise_store [of s data] bad given nz by auto
  have raise: "fst (update_exercise s data) =
      Inl (if values_bind data then IntegrityError else OverflowError)"
    if nz: "\<not> eq_zero (d_rating data)" and sel: "selected_rows s data \<noteq> []"
      and val: "passes_validation data"
  proof -
    from sel obtain e where
      e: "find (\<lambda>e. Some (ex_name e) = d_exercise data) (EXERCISE s) = Some e"
      by (auto simp: selected_rows_def split: option.splits)
    show ?thesis
      unfolding update_exercise_resolved [OF val e] using bad given nz sel by simp
  qed
  show "\<exists>e. fst (update_exercise s data) = Inl e"
    if nz: "\<not> eq_zero (d_rating data)" and sel: "selected_rows s data \<noteq> []"
  proof (cases "passes_validation data")
    case True
    from raise [OF nz sel True] show ?thesis by blast
  next
    case False
    from update_exercise_invalid [OF this, of s] show ?thesis by auto
  qed
  show "fst (update_exercise s data) = Inl IntegrityError"
    if "\<not> eq_zero (d_rating data)" and "selected_rows s data \<noteq> []"
      and "passes_validation data" and "values_bind data"
    using raise [OF that(1-3)] that(4) by simp
qed

text \<open>Claim C8, as amended.  In every store reachable from the empty one by the public
  operations, every \<^verbatim>\<open>PLAYER_EXERCISE\<close> row has no rating or a number from 1 to 5.  A call
  of \<^verbatim>\<open>update_exercise\<close> with a rating that fails the \<^verbatim>\<open>CHECK\<close> (a number outside 1 to 5, or
  an infinity) leaves the rating of every row as it was.  When that rating is not 0, the
  call leaves the whole store as it was, and it raises whenever it selects a row:
  \<^verbatim>\<open>IntegrityError\<close> when the call got past validation and its parameters could be bound.\<close>

theorem ratings_within_range:
  assumes "reachable s"
  shows "list_all (\<lambda>r. pe_rating r = None \<or> (\<exists>x. pe_rating r = Some x \<and> 1 \<le> x \<and> x \<le> 5))
           (PLAYER_EXERCISE s) \<and>
         (\<forall>data. \<not> passes_check (d_rating data) \<longrightarrow>
            map pe_rating (PLAYER_EXERCISE (snd (update_exercise s data))) =
              map pe_rating (PLAYER_EXERCISE s) \<and>
            (\<not> eq_zero (d_rating data) \<longrightarrow>
               snd (update_exercise s data) = s \<and>
               (selected_rows s data \<noteq> [] \<longrightarrow>
                  (\<exists>e. fst (update_exercise s data) = Inl e) \<and>
                  (passes_validation data \<and> values_bind data \<longrightarrow>
                     fst (update_exercise s data) = Inl IntegrityError))))"
proof -
  have "list_all (\<lambda>r. rating_check (pe_rating r)) (PLAYER_EXERCISE s)"
    using reachable_ratings_ok [OF assms] by (simp add: ratings_ok_def)
  moreover have "rating_check x \<Longrightarrow> x = None \<or> (\<exists>y. x = Some y \<and> 1 \<le> y \<and> y \<le> 5)" for x
    by (cases x) (simp_all add: rating_check_def)
  ultimately have "list_all (\<lambda>r. pe_rating r = None \<or> (\<exists>x. pe_rating r = Some x \<and> 1 \<le> x \<and> x \<le> 5))
           (PLAYER_EXERCISE s)"
    by (simp add: list_all_iff)
  then show ?thesis using update_exercise_rejected_rating by blast
qed

text \<open>Claim C8 as stated fails: a rating need not be an integer.  The call with the rating
  3.5 for the player of the example passes validation and the \<^verbatim>\<open>CHECK\<close>, and the reachable
  store it leaves holds the rating 3.5.\<close>

theorem ratings_within_range_counterexample:
  "reachable store_half \<and>
   fst (update_exercise store_ana data_rating_half) =
     Inr (Reply_message ''Exercise updated successfully.'') \<and>
   \<lparr>pe_id = 10, pe_player_id = 1, pe_exercise_id = 10, pe_result = None,
     pe_rating = Some (7 / 2)\<rparr> \<in> set (PLAYER_EXERCISE store_half) \<and>
   (7 / 2 :: real) \<notin> \<int>"
proof -
  have "(7 / 2 :: real) \<notin> \<int>"
  proof
    assume "(7 / 2 :: real) \<in> \<int>"
    then obtain k :: int where "7 / 2 = real_of_int k" by (auto elim: Ints_cases)
    then have "real_of_int 7 = real_of_int (2 * k)" by simp
    then have "7 = 2 * k" by (simp only: of_int_eq_iff)
    then show False by presburger
  qed
  moreover have "fst (update_exercise store_ana data_rating_half) =
     Inr (Reply_message ''Exercise updated successfully.'')"
    by (simp add: update_exercise_def Let_def data_rating_half_def
        values_bind_def fits_int64_def rating_check_def store_ana_rows seed_exercise_rows_def)
  moreover have "\<lparr>pe_id = 10, pe_player_id = 1, pe_exercise_id = 10, pe_result = None,
     pe_rating = Some (7 / 2)\<rparr> \<in> set (PLAYER_EXERCISE store_half)"
    by (simp add: store_half_rows)
  ultimately show ?thesis using reachable_examples(2) by blast
qed

theorem ratings_within_range_witness:
  "reachable store_rated \<and>
   map pe_rating (PLAYER_EXERCISE store_rated) =
     [None, None, None, None, None, None, None, None, None, Some 3,
      None, None, None, None, None, None, None] \<and>
   list_all (\<lambda>r. pe_rating r = None \<or> (\<exists>x. pe_rating r = Some x \<and> 1 \<le> x \<and> x \<le> 5))
     (PLAYER_EXERCISE store_rated) \<and>
   selected_rows store_rated data_rating9 \<noteq> [] \<and>
   update_exercise store_rated data_rating9 = (Inl IntegrityError, store_rated)"
proof -
  have r: "map pe_rating (PLAYER_EXERCISE store_rated) =
     [None, None, None, None, None, None, None, None, None, Some 3,
      None, None, None, None, None, None, None]"
    by (simp add: store_rated_rows)
  have b: "\<not> passes_check (d_rating data_rating9)"
    and z: "\<not> eq_zero (d_rating data_rating9)"
    and v: "passes_validation data_rating9 \<and> values_bind data_rating9"
    and n: "selected_rows store_rated data_rating9 \<noteq> []"
    by (simp_all add: data_rating9_def rating_check_def passes_validation_def values_bind_def
        fits_int64_def selected_rows_def store_rated_rows seed_exercise_rows_def)
  note t = ratings_within_range [OF reachable_examples(1)]
  note u = t [THEN conjunct2, THEN spec, THEN mp, OF b, THEN conjunct2, THEN mp, OF z]
  from u [THEN conjunct2, THEN mp, OF n, THEN conjunct2, THEN mp, OF v] u [THEN conjunct1]
  have "update_exercise store_rated data_rating9 = (Inl IntegrityError, store_rated)"
    by (simp add: prod_eq_iff)
  with reachable_examples(1) r t [THEN conjunct1] n show ?thesis by blast
qed

subsection \<open>The reply of update_exercise\<close>

lemma filter_key_le_one:
  "distinct (map f xs) \<Longrightarrow> length (filter (\<lambda>r. f r = k) xs) \<le> 1"
  by (induction xs) (auto simp: filter_empty_conv image_iff)

lemma selected_rows_le_one:
  assumes "rows_inv s"
  shows "length (selected_rows s data) \<le> 1"
proof (cases "find (\<lambda>e. Some (ex_name e) = d_exercise data) (EXERCISE s)")
  case None
  then show ?thesis by (simp add: selected_rows_def)
next
  case (Some e)
  show ?thesis
  proof (cases "d_playerId data")
    case None
    with Some show ?thesis by (simp add: selected_rows_def)
  next
    case (Some p)
    have "(\<lambda>r. Some (pe_player_id r) = Some p \<and> pe_exercise_id r = ex_id e) =
        (\<lambda>r. (pe_player_id r, pe_exercise_id r) = (p, ex_id e))"
      by auto
    moreover from assms have
      "distinct (map (\<lambda>r. (pe_player_id r, pe_exercise_id r)) (PLAYER_EXERCISE s))"
      by (simp add: rows_inv_def)
    from filter_key_le_one [OF this, of "(p, ex_id e)"]
    have "length (filter (\<lambda>r. (pe_player_id r, pe_exercise_id r) = (p, ex_id e))
        (PLAYER_EXERCISE s)) \<le> 1" .
    ultimately show ?thesis using Some \<open>find _ _ = Some e\<close>
      by (simp add: selected_rows_def)
  qed
qed

text \<open>Claim C2, as amended.  In a reachable store, for a call of \<^verbatim>\<open>update_exercise\<close> that
  passes input validation and whose exercise name resolves, the \<^verbatim>\<open>WHERE\<close> clause
  selects at most one row.  When a parameter cannot be bound (a player id, or a rating
  other than 0, that is an int outside 64 bits), the call raises \<^verbatim>\<open>OverflowError\<close>.
  Otherwise, when it selects a row and the call supplies a rating other than 0 that fails
  the \<^verbatim>\<open>CHECK\<close>, the call raises \<^verbatim>\<open>IntegrityError\<close>.  Either way the store is unchanged.
  In every other case the call returns, and the store it leaves differs from the old one
  exactly in the selected rows, which have the supplied valid fields written: the reply is
  the success message if and only if exactly one row was selected, and the no-match reply
  if and only if none was.\<close>

theorem update_exercise_reply:
  assumes "reachable s" and "passes_validation data"
    and "find (\<lambda>e. Some (ex_name e) = d_exercise data) (EXERCISE s) = Some e"
  shows "length (selected_rows s data) \<le> 1 \<and>
    (\<not> values_bind data \<longrightarrow> update_exercise s data = (Inl OverflowError, s)) \<and>
    (values_bind data \<and> \<not> eq_zero (d_rating data) \<and> \<not> passes_check (d_rating data) \<and>
     selected_rows s data \<noteq> [] \<longrightarrow>
       update_exercise s data = (Inl IntegrityError, s)) \<and>
    (values_bind data \<and>
     (eq_zero (d_rating data) \<or> passes_check (d_rating data) \<or> selected_rows s data = []) \<longrightarrow>
       (\<exists>reply.
          update_exercise s data =
            (Inr reply,
             s\<lparr>PLAYER_EXERCISE :=
                 map (\<lambda>r. if r \<in> set (selected_rows s data) then set_fields data r else r)
                   (PLAYER_EXERCISE s)\<rparr>) \<and>
          (reply = Reply_message ''Exercise updated successfully.'' \<longleftrightarrow>
             length (selected_rows s data) = 1) \<and>
          (reply = Reply_error ''No matching exercise found for this player.'' \<longleftrightarrow>
             length (selected_rows s data) = 0)))"
proof -
  have le: "length (selected_rows s data) \<le> 1"
    using reachable_rows_inv [OF assms(1)] by (rule selected_rows_le_one)
  note r = update_exercise_resolved [OF assms(2,3)]
  have over: "update_exercise s data = (Inl OverflowError, s)" if "\<not> values_bind data"
    unfolding r using that by simp
  have check: "update_exercise s data = (Inl IntegrityError, s)"
    if "values_bind data \<and> \<not> eq_zero (d_rating data) \<and> \<not> passes_check (d_rating data) \<and>
     selected_rows s data \<noteq> []"
    unfolding r using that rejected_rating_given [of "d_rating data"] by simp
  have ret: "\<exists>reply.
          update_exercise s data =
            (Inr reply,
             s\<lparr>PLAYER_EXERCISE :=
                 map (\<lambda>r. if r \<in> set (selected_rows s data) then set_fields data r else r)
                   (PLAYER_EXERCISE s)\<rparr>) \<and>
          (reply = Reply_message ''Exercise updated successfully.'' \<longleftrightarrow>
             length (selected_rows s data) = 1) \<and>
          (reply = Reply_error ''No matching exercise found for this player.'' \<longleftrightarrow>
             length (selected_rows s data) = 0)"
    if c: "values_bind data \<and>
     (eq_zero (d_rating data) \<or> passes_check (d_rating data) \<or> selected_rows s data = [])"
  proof -
    from c have eq: "update_exercise s data =
        (Inr (if selected_rows s data \<noteq> []
              then Reply_message ''Exercise updated successfully.''
              else Reply_error ''No matching exercise found for this player.''),
         s\<lparr>PLAYER_EXERCISE :=
             map (\<lambda>r. if r \<in> set (selected_rows s data) then set_fields data r else r)
               (PLAYER_EXERCISE s)\<rparr>)"
      unfolding r by auto
    from le consider "length (selected_rows s data) = 0" | "length (selected_rows s data) = 1"
      by arith
    then show ?thesis
    proof cases
      case 1
      with eq show ?thesis by simp
    next
      case 2
      then have "selected_rows s data \<noteq> []" by auto
      with eq 2 show ?thesis by simp
    qed
  qed
  from le over check ret show ?thesis by blast
qed

text \<open>Claim C2 as stated fails for the player of the example and the rating 9: the call
  passes validation, the exercise name resolves, no row is changed, and yet the call
  returns no reply: it raises.\<close>

theorem update_exercise_reply_counterexample:
  "passes_validation data_rating9 \<and>
   find (\<lambda>e. Some (ex_name e) = d_exercise data_rating9) (EXERCISE store_ana) =
     Some \<lparr>ex_id = 10, ex_category_id = 4, ex_name = ''Stepovers''\<rparr> \<and>
   fst (update_exercise store_ana data_rating9) = Inl IntegrityError \<and>
   snd (update_exercise store_ana data_rating9) = store_ana"
  by (simp add: update_exercise_def Let_def data_rating9_def passes_validation_def
      values_bind_def fits_int64_def store_ana_rows seed_exercise_rows_def rating_check_def)

theorem update_exercise_reply_witness:
  "reachable store_ana \<and> passes_validation data_rating3 \<and>
   length (selected_rows store_ana data_rating3) = 1 \<and>
   fst (update_exercise store_ana data_rating3) =
     Inr (Reply_message ''Exercise updated successfully.'') \<and>
   PLAYER_EXERCISE (snd (update_exercise store_ana data_rating3)) =
     map (\<lambda>i. \<lparr>pe_id = i, pe_player_id = 1, pe_exercise_id = i, pe_result = None,
               pe_rating = (if i = 10 then Some 3 else None)\<rparr>)
       [1, 2, 3, 4, 5, 6, 7, 8, 9, 10, 11, 12, 13, 14, 15, 16, 17] \<and>
   length (selected_rows store_ana data_no_player) = 0 \<and>
   update_exercise store_ana data_no_player =
     (Inr (Reply_error ''No matching exercise found for this player.''), store_ana) \<and>
   update_exercise store_ana data_big_player = (Inl OverflowError, store_ana)"
proof -
  have v3: "values_bind data_rating3 \<and>
      (eq_zero (d_rating data_rating3) \<or> passes_check (d_rating data_rating3) \<or>
       selected_rows store_ana data_rating3 = [])"
    by (simp add: data_rating3_def values_bind_def fits_int64_def rating_check_def)
  have vn: "values_bind data_no_player \<and>
      (eq_zero (d_rating data_no_player) \<or> passes_check (d_rating data_no_player) \<or>
       selected_rows store_ana data_no_player = [])"
    by (simp add: data_no_player_def values_bind_def fits_int64_def rating_check_def)
  have vb: "\<not> values_bind data_big_player"
    by (simp add: data_big_player_def values_bind_def fits_int64_def)
  have l3: "length (selected_rows store_ana data_rating3) = 1"
    and ln: "length (selected_rows store_ana data_no_player) = 0"
    by (simp_all add: selected_examples)
  from update_exercise_reply [OF reachable_store_ana validation_examples(2) resolves_examples(2),
      THEN conjunct2, THEN conjunct2, THEN conjunct2, THEN mp, OF v3] l3
  have r3: "update_exercise store_ana data_rating3 =
      (Inr (Reply_message ''Exercise updated successfully.''),
       store_ana\<lparr>PLAYER_EXERCISE :=
           map (\<lambda>r. if r \<in> set (selected_rows store_ana data_rating3)
                  then set_fields data_rating3 r else r)
             (PLAYER_EXERCISE store_ana)\<rparr>)"
    by auto
  have w3: "PLAYER_EXERCISE (snd (update_exercise store_ana data_rating3)) =
     map (\<lambda>i. \<lparr>pe_id = i, pe_player_id = 1, pe_exercise_id = i, pe_result = None,
               pe_rating = (if i = 10 then Some 3 else None)\<rparr>)
       [1, 2, 3, 4, 5, 6, 7, 8, 9, 10, 11, 12, 13, 14, 15, 16, 17]"
    unfolding r3
    by (simp add: selected_rows_def store_ana_rows seed_exercise_rows_def set_fields_def
        data_rating3_def)
  from update_exercise_reply [OF reachable_store_ana validation_examples(3) resolves_examples(3),
      THEN conjunct2, THEN conjunct2, THEN conjunct2, THEN mp, OF vn] ln
  have rn: "update_exercise store_ana data_no_player =
     (Inr (Reply_error ''No matching exercise found for this player.''), store_ana)"
    by (auto simp: selected_examples)
  from update_exercise_reply [OF reachable_store_ana validation_examples(5) resolves_examples(5),
      THEN conjunct2, THEN conjunct1, THEN mp, OF vb]
  have rb: "update_exercise store_ana data_big_player = (Inl OverflowError, store_ana)" .
  from r3 have f3: "fst (update_exercise store_ana data_rating3) =
     Inr (Reply_message ''Exercise updated successfully.'')"
    by simp
  from reachable_store_ana validation_examples(2) l3 f3 w3 ln rn rb show ?thesis by blast
qed

subsection \<open>Input validation of update_exercise\<close>

text \<open>Claim C5, as amended.  \<^verbatim>\<open>update_exercise\<close> raises one of its two bad-input errors
  exactly when the exercise name is absent or the empty string, or when both the result is
  invalid (absent or the literal \<^verbatim>\<open>N/A\<close>) and the rating is invalid (absent or 0).  Whatever
  the call does, it writes no column that was not supplied with a valid value: an invalid
  result leaves the result of every row as it was, an invalid rating the rating of every
  row, the other columns of \<^verbatim>\<open>PLAYER_EXERCISE\<close> and all other tables are never changed.\<close>

theorem update_exercise_invalid_input:
  "((\<exists>e. fst (update_exercise s data) = Inl e \<and> InvalidInput e) \<longleftrightarrow>
      (d_exercise data = None \<or> d_exercise data = Some [] \<or>
       ((d_result data = None \<or> d_result data = Some ''N/A'') \<and>
        (d_rating data = None \<or> eq_zero (d_rating data))))) \<and>
   (d_result data = None \<or> d_result data = Some ''N/A'' \<longrightarrow>
      map pe_result (PLAYER_EXERCISE (snd (update_exercise s data))) =
        map pe_result (PLAYER_EXERCISE s)) \<and>
   (d_rating data = None \<or> eq_zero (d_rating data) \<longrightarrow>
      map pe_rating (PLAYER_EXERCISE (snd (update_exercise s data))) =
        map pe_rating (PLAYER_EXERCISE s)) \<and>
   map (\<lambda>r. (pe_id r, pe_player_id r, pe_exercise_id r))
       (PLAYER_EXERCISE (snd (update_exercise s data))) =
     map (\<lambda>r. (pe_id r, pe_player_id r, pe_exercise_id r)) (PLAYER_EXERCISE s) \<and>
   (snd (update_exercise s data))\<lparr>PLAYER_EXERCISE := PLAYER_EXERCISE s\<rparr> = s"
proof -
  have a: "(\<exists>e. fst (update_exercise s data) = Inl e \<and> InvalidInput e) \<longleftrightarrow>
      (d_exercise data = None \<or> d_exercise data = Some [] \<or>
       ((d_result data = None \<or> d_result data = Some ''N/A'') \<and>
        (d_rating data = None \<or> eq_zero (d_rating data))))"
    by (auto simp: update_exercise_def Let_def InvalidInput_def split: if_splits option.splits)
  have b: "map pe_result (PLAYER_EXERCISE (snd (update_exercise s data))) =
        map pe_result (PLAYER_EXERCISE s)"
    if "d_result data = None \<or> d_result data = Some ''N/A''"
    using that by (rule update_exercise_keeps_result)
  have c: "map pe_rating (PLAYER_EXERCISE (snd (update_exercise s data))) =
        map pe_rating (PLAYER_EXERCISE s)"
    if "d_rating data = None \<or> eq_zero (d_rating data)"
    using that by (rule update_exercise_keeps_rating)
  have d: "map (\<lambda>r. (pe_id r, pe_player_id r, pe_exercise_id r))
       (PLAYER_EXERCISE (snd (update_exercise s data))) =
     map (\<lambda>r. (pe_id r, pe_player_id r, pe_exercise_id r)) (PLAYER_EXERCISE s)"
    by (rule update_exercise_keys)
  have e: "(snd (update_exercise s data))\<lparr>PLAYER_EXERCISE := PLAYER_EXERCISE s\<rparr> = s"
    by (rule update_exercise_frame)
  from a b c d e show ?thesis by blast
qed

text \<open>Claim C5 as stated fails for an exercise name that is present and empty: with a
  valid rating the call still raises the bad-input error for the name.\<close>

theorem update_exercise_invalid_input_counterexample:
  "d_exercise data_empty_name = Some [] \<and> d_rating data_empty_name = Some (PyInt 3) \<and>
   update_exercise store_ana data_empty_name =
     (Inl (ValueError ''Exercise name is required''), store_ana)"
  by (simp add: update_exercise_def data_empty_name_def)

theorem update_exercise_invalid_input_witness:
  "\<not> (\<exists>e. fst (update_exercise store_ana data_rating3) = Inl e \<and> InvalidInput e) \<and>
   map pe_result (PLAYER_EXERCISE (snd (update_exercise store_ana data_rating3))) =
     map pe_result (PLAYER_EXERCISE store_ana) \<and>
   map pe_rating (PLAYER_EXERCISE (snd (update_exercise store_ana data_rating3))) =
     [None, None, None, None, None, None, None, None, None, Some 3,
      None, None, None, None, None, None, None] \<and>
   (\<exists>e. fst (update_exercise store_ana data_placeholders) = Inl e \<and> InvalidInput e) \<and>
   (\<exists>e. fst (update_exercise store_ana data_empty_name) = Inl e \<and> InvalidInput e)"
proof -
  note t3 = update_exercise_invalid_input [of store_ana data_rating3]
  have "\<not> (\<exists>e. fst (update_exercise store_ana data_rating3) = Inl e \<and> InvalidInput e)"
    unfolding t3 [THEN conjunct1] by (simp add: data_rating3_def)
  moreover have "map pe_result (PLAYER_EXERCISE (snd (update_exercise store_ana data_rating3))) =
     map pe_result (PLAYER_EXERCISE store_ana)"
    using t3 by (simp add: data_rating3_def)
  moreover have "map pe_rating (PLAYER_EXERCISE (snd (update_exercise store_ana data_rating3))) =
     [None, None, None, None, None, None, None, None, None, Some 3,
      None, None, None, None, None, None, None]"
    unfolding store_rated_def [symmetric] by (simp add: store_rated_rows)
  moreover have "\<exists>e. fst (update_exercise store_ana data_placeholders) = Inl e \<and> InvalidInput e"
    unfolding update_exercise_invalid_input [of store_ana data_placeholders, THEN conjunct1]
    by (simp add: data_placeholders_def)
  moreover have "\<exists>e. fst (update_exercise store_ana data_empty_name) = Inl e \<and> InvalidInput e"
    unfolding update_exercise_invalid_input [of store_ana data_empty_name, THEN conjunct1]
    by (simp add: data_empty_name_def)
  ultimately show ?thesis by blast
qed

subsection \<open>Linking a child twice\<close>

lemma store_family_rows:
  "PLAYER store_family = PLAYER store_ana"
  "PLAYER store_ana =
     [\<lparr>pl_id = 1, pl_username = ''ana'', pl_password = ''pw'', pl_email = ''ana@x.com'',
       pl_name = ''Ana'', pl_picture = None, pl_birthYear = 2012, pl_country = ''ES'',
       pl_number = Some 0, pl_parent = None, pl_parentEmail = None, pl_parentPhone = None,
       pl_coach = None, pl_coachEmail = None, pl_coachPhone = None, pl_team = None,
       pl_shirtNumber = None, pl_team_id = None\<rparr>]"
  "PARENT store_family =
     [\<lparr>pa_id = 1, pa_username = ''mom'', pa_password = ''pw'', pa_email = ''mom@x.com'',
       pa_name = ''Mia'', pa_picture = None, pa_birthYear = 1980, pa_country = ''ES'',
       pa_child_name = None, pa_child_email = None\<rparr>]"
  "COACH store_family =
     [\<lparr>co_id = 1, co_username = ''bob'', co_password = ''pw'', co_email = ''ana@x.com'',
       co_name = ''Bob'', co_picture = None, co_birthYear = 1975, co_country = ''ES'',
       co_team = None, co_team_id = None\<rparr>]"
  "PARENT_PLAYER store_family = []" "seq_PARENT_PLAYER store_family = 0"
  "TEAM store_family = []" "seq_TEAM store_family = 0"
  by (simp_all add: store_family_def store_ana_def store_seeded_eq empty_store_def add_user_def
      Let_def next_rowid_def insert_player_exercise_def seed_exercise_rows_def)

lemma find_map_preserved:
  "(\<And>x. P (g x) = P x) \<Longrightarrow> find P (map g xs) = map_option g (find P xs)"
  by (induction xs) auto

lemma link_child_success:
  assumes c: "find (\<lambda>p. pl_username p = child_username) (PLAYER s) = Some child"
    and p: "find (\<lambda>p. pa_id p = parent_id) (PARENT s) = Some parent"
  shows "fst (link_child s child_username parent_id) = Inr ()"
    and "PARENT_PLAYER (snd (link_child s child_username parent_id)) =
           PARENT_PLAYER s @
             [\<lparr>pp_id = next_rowid (seq_PARENT_PLAYER s) (map pp_id (PARENT_PLAYER s)),
               pp_parent_id = parent_id, pp_player_id = pl_id child\<rparr>]"
    and "\<exists>child'. find (\<lambda>p. pl_username p = child_username)
             (PLAYER (snd (link_child s child_username parent_id))) = Some child' \<and>
           pl_id child' = pl_id child"
    and "\<exists>parent'. find (\<lambda>p. pa_id p = parent_id)
             (PARENT (snd (link_child s child_username parent_id))) = Some parent'"
proof -
  let ?gP = "\<lambda>p. if pa_id p = parent_id
                then p\<lparr>pa_child_name := Some (pl_name child),
                       pa_child_email := Some (pl_email child)\<rparr>
                else p"
  let ?gC = "\<lambda>p. if pl_id p = pl_id child
                then p\<lparr>pl_parent := Some (pa_name parent),
                       pl_parentEmail := Some (pa_email parent)\<rparr>
                else p"
  have fc: "find (\<lambda>p. pl_username p = child_username) (map ?gC (PLAYER s)) = Some (?gC child)"
    using c by (subst find_map_preserved) simp_all
  have fp: "find (\<lambda>p. pa_id p = parent_id) (map ?gP (PARENT s)) = Some (?gP parent)"
    using p by (subst find_map_preserved) simp_all
  show "fst (link_child s child_username parent_id) = Inr ()"
    using c p by (simp add: link_child_def Let_def)
  show "PARENT_PLAYER (snd (link_child s child_username parent_id)) =
           PARENT_PLAYER s @
             [\<lparr>pp_id = next_rowid (seq_PARENT_PLAYER s) (map pp_id (PARENT_PLAYER s)),
               pp_parent_id = parent_id, pp_player_id = pl_id child\<rparr>]"
    using c p by (simp add: link_child_def Let_def)
  have "PLAYER (snd (link_child s child_username parent_id)) = map ?gC (PLAYER s)"
    using c p by (simp add: link_child_def Let_def)
  with fc show "\<exists>child'. find (\<lambda>p. pl_username p = child_username)
             (PLAYER (snd (link_child s child_username parent_id))) = Some child' \<and>
           pl_id child' = pl_id child"
    by simp
  have "PARENT (snd (link_child s child_username parent_id)) = map ?gP (PARENT s)"
    using c p by (simp add: link_child_def Let_def)
  with fp show "\<exists>parent'. find (\<lambda>p. pa_id p = parent_id)
             (PARENT (snd (link_child s child_username parent_id))) = Some parent'"
    by simp
qed

text \<open>Claim C1 says that a second \<^verbatim>\<open>link_child\<close> with the same child and parent raises no
  error and leaves exactly one \<^verbatim>\<open>PARENT_PLAYER\<close> row for the pair.  The second call does
  return without an error, but the table has no \<^verbatim>\<open>UNIQUE\<close> constraint on the pair, so the
  \<^verbatim>\<open>INSERT OR IGNORE\<close> has nothing to ignore: whenever a first call succeeds, the same
  call again succeeds and the two calls together add two rows for the pair.\<close>

theorem link_child_twice_adds_two_rows:
  assumes "link_child s child_username parent_id = (Inr (), s1)"
  shows "\<exists>child s2.
           find (\<lambda>p. pl_username p = child_username) (PLAYER s) = Some child \<and>
           link_child s1 child_username parent_id = (Inr (), s2) \<and>
           length (filter (\<lambda>r. pp_parent_id r = parent_id \<and> pp_player_id r = pl_id child)
                     (PARENT_PLAYER s2)) =
             length (filter (\<lambda>r. pp_parent_id r = parent_id \<and> pp_player_id r = pl_id child)
                       (PARENT_PLAYER s)) + 2"
proof -
  from assms obtain child parent where
    c: "find (\<lambda>p. pl_username p = child_username) (PLAYER s) = Some child" and
    p: "find (\<lambda>p. pa_id p = parent_id) (PARENT s) = Some parent"
    by (auto simp: link_child_def Let_def split: option.splits)
  from assms have s1: "s1 = snd (link_child s child_username parent_id)" by simp
  note a = link_child_success [OF c p, folded s1]
  from a(3) obtain child' where
    c': "find (\<lambda>p. pl_username p = child_username) (PLAYER s1) = Some child'" and
    id': "pl_id child' = pl_id child"
    by blast
  from a(4) obtain parent' where
    p': "find (\<lambda>p. pa_id p = parent_id) (PARENT s1) = Some parent'"
    by blast
  note b = link_child_success [OF c' p']
  define s2 where "s2 = snd (link_child s1 child_username parent_id)"
  from b(1) have run: "link_child s1 child_username parent_id = (Inr (), s2)"
    by (simp add: s2_def prod_eq_iff)
  have "length (filter (\<lambda>r. pp_parent_id r = parent_id \<and> pp_player_id r = pl_id child)
                     (PARENT_PLAYER s2)) =
             length (filter (\<lambda>r. pp_parent_id r = parent_id \<and> pp_player_id r = pl_id child)
                       (PARENT_PLAYER s)) + 2"
    unfolding s2_def b(2) a(2) by (simp add: id')
  with c run show ?thesis by blast
qed

theorem link_child_twice_adds_two_rows_witness:
  "fst (link_child store_family ''ana'' 1) = Inr () \<and>
   (\<exists>s2. link_child (snd (link_child store_family ''ana'' 1)) ''ana'' 1 = (Inr (), s2) \<and>
      length (filter (\<lambda>r. pp_parent_id r = 1 \<and> pp_player_id r = 1) (PARENT_PLAYER s2)) = 2)"
proof -
  have f: "fst (link_child store_family ''ana'' 1) = Inr ()"
    by (simp add: link_child_def Let_def store_family_rows)
  then have e: "link_child store_family ''ana'' 1 = (Inr (), snd (link_child store_family ''ana'' 1))"
    by (simp add: prod_eq_iff)
  from link_child_twice_adds_two_rows [OF e] obtain child s2 where
    h: "find (\<lambda>p. pl_username p = ''ana'') (PLAYER store_family) = Some child"
      "link_child (snd (link_child store_family ''ana'' 1)) ''ana'' 1 = (Inr (), s2)"
      "length (filter (\<lambda>r. pp_parent_id r = 1 \<and> pp_player_id r = pl_id child)
                     (PARENT_PLAYER s2)) =
         length (filter (\<lambda>r. pp_parent_id r = 1 \<and> pp_player_id r = pl_id child)
                       (PARENT_PLAYER store_family)) + 2"
    by blast
  from h(1) have "pl_id child = 1" by (auto simp: store_family_rows)
  with h(3) have "length (filter (\<lambda>r. pp_parent_id r = 1 \<and> pp_player_id r = 1)
      (PARENT_PLAYER s2)) = 2"
    by (simp add: store_family_rows)
  with f h(2) show ?thesis by blast
qed

text \<open>The rows of the example, written out.\<close>

lemma link_child_twice_example:
  "fst (link_child store_family ''ana'' 1) = Inr () \<and>
   PARENT_PLAYER (snd (link_child store_family ''ana'' 1)) =
     [\<lparr>pp_id = 1, pp_parent_id = 1, pp_player_id = 1\<rparr>] \<and>
   fst (link_child (snd (link_child store_family ''ana'' 1)) ''ana'' 1) = Inr () \<and>
   PARENT_PLAYER (snd (link_child (snd (link_child store_family ''ana'' 1)) ''ana'' 1)) =
     [\<lparr>pp_id = 1, pp_parent_id = 1, pp_player_id = 1\<rparr>,
      \<lparr>pp_id = 2, pp_parent_id = 1, pp_player_id = 1\<rparr>]"
  by (simp add: link_child_def Let_def store_family_rows next_rowid_def)

subsection \<open>Lookup by email\<close>

lemma find_first:
  "x \<in> set (map f xs) \<Longrightarrow>
   \<exists>pre u post. xs = pre @ u # post \<and> f u = x \<and> x \<notin> set (map f pre) \<and>
     find (\<lambda>r. f r = x) xs = Some u"
proof (induction xs)
  case Nil
  then show ?case by simp
next
  case (Cons a xs)
  show ?case
  proof (cases "f a = x")
    case True
    then have "a # xs = [] @ a # xs \<and> f a = x \<and> x \<notin> set (map f []) \<and>
        find (\<lambda>r. f r = x) (a # xs) = Some a"
      by simp
    then show ?thesis by blast
  next
    case False
    with Cons.prems have "x \<in> set (map f xs)" by auto
    from Cons.IH [OF this] obtain pre u post where
      h: "xs = pre @ u # post" "f u = x" "x \<notin> set (map f pre)" "find (\<lambda>r. f r = x) xs = Some u"
      by blast
    from h False have "a # xs = (a # pre) @ u # post \<and> f u = x \<and> x \<notin> set (map f (a # pre)) \<and>
        find (\<lambda>r. f r = x) (a # xs) = Some u"
      by auto
    then show ?thesis by blast
  qed
qed

lemma find_absent: "x \<notin> set (map f xs) \<Longrightarrow> find (\<lambda>r. f r = x) xs = None"
  by (induction xs) auto

text \<open>Claim C6.  \<^verbatim>\<open>get_user_by_email\<close> probes \<^verbatim>\<open>PLAYER\<close>, then \<^verbatim>\<open>COACH\<close>, then \<^verbatim>\<open>PARENT\<close>
  and returns the first row with the email, paired with the role of its table: a player
  with the email wins whatever the other two tables hold, a coach wins when no player has
  it, a parent when neither a player nor a coach has it, and when no table has it the
  result is \<^verbatim>\<open>(None, None)\<close>.  The function has no branch that raises.\<close>

theorem get_user_by_email_probe_order:
  "(email \<in> set (map pl_email (PLAYER s)) \<longrightarrow>
      (\<exists>pre u post. PLAYER s = pre @ u # post \<and> pl_email u = email \<and>
         email \<notin> set (map pl_email pre) \<and>
         get_user_by_email s email = (Some (PlayerRow u), Some ''player''))) \<and>
   (email \<notin> set (map pl_email (PLAYER s)) \<and> email \<in> set (map co_email (COACH s)) \<longrightarrow>
      (\<exists>pre u post. COACH s = pre @ u # post \<and> co_email u = email \<and>
         email \<notin> set (map co_email pre) \<and>
         get_user_by_email s email = (Some (CoachRow u), Some ''coach''))) \<and>
   (email \<notin> set (map pl_email (PLAYER s)) \<and> email \<notin> set (map co_email (COACH s)) \<and>
    email \<in> set (map pa_email (PARENT s)) \<longrightarrow>
      (\<exists>pre u post. PARENT s = pre @ u # post \<and> pa_email u = email \<and>
         email \<notin> set (map pa_email pre) \<and>
         get_user_by_email s email = (Some (ParentRow u), Some ''parent''))) \<and>
   (email \<notin> set (map pl_email (PLAYER s)) \<and> email \<notin> set (map co_email (COACH s)) \<and>
    email \<notin> set (map pa_email (PARENT s)) \<longrightarrow>
      get_user_by_email s email = (None, None))"
proof (intro conjI impI)
  assume "email \<in> set (map pl_email (PLAYER s))"
  from find_first [OF this] obtain pre u post where
    h: "PLAYER s = pre @ u # post" "pl_email u = email" "email \<notin> set (map pl_email pre)"
      "find (\<lambda>r. pl_email r = email) (PLAYER s) = Some u"
    by blast
  from h(4) have "get_user_by_email s email = (Some (PlayerRow u), Some ''player'')"
    by (simp add: get_user_by_email_def)
  with h(1-3) show "\<exists>pre u post. PLAYER s = pre @ u # post \<and> pl_email u = email \<and>
         email \<notin> set (map pl_email pre) \<and>
         get_user_by_email s email = (Some (PlayerRow u), Some ''player'')"
    by blast
next
  assume a: "email \<notin> set (map pl_email (PLAYER s)) \<and> email \<in> set (map co_email (COACH s))"
  from find_first [of email co_email "COACH s"] a obtain pre u post where
    h: "COACH s = pre @ u # post" "co_email u = email" "email \<notin> set (map co_email pre)"
      "find (\<lambda>r. co_email r = email) (COACH s) = Some u"
    by blast
  from a h(4) have "get_user_by_email s email = (Some (CoachRow u), Some ''coach'')"
    by (simp add: get_user_by_email_def find_absent)
  with h(1-3) show "\<exists>pre u post. COACH s = pre @ u # post \<and> co_email u = email \<and>
         email \<notin> set (map co_email pre) \<and>
         get_user_by_email s email = (Some (CoachRow u), Some ''coach'')"
    by blast
next
  assume a: "email \<notin> set (map pl_email (PLAYER s)) \<and> email \<notin> set (map co_email (COACH s)) \<and>
    email \<in> set (map pa_email (PARENT s))"
  from find_first [of email pa_email "PARENT s"] a obtain pre u post where
    h: "PARENT s = pre @ u # post" "pa_email u = email" "email \<notin> set (map pa_email pre)"
      "find (\<lambda>r. pa_email r = email) (PARENT s) = Some u"
    by blast
  from a h(4) have "get_user_by_email s email = (Some (ParentRow u), Some ''parent'')"
    by (simp add: get_user_by_email_def find_absent)
  with h(1-3) show "\<exists>pre u post. PARENT s = pre @ u # post \<and> pa_email u = email \<and>
         email \<notin> set (map pa_email pre) \<and>
         get_user_by_email s email = (Some (ParentRow u), Some ''parent'')"
    by blast
next
  assume "email \<notin> set (map pl_email (PLAYER s)) \<and> email \<notin> set (map co_email (COACH s)) \<and>
    email \<notin> set (map pa_email (PARENT s))"
  then show "get_user_by_email s email = (None, None)"
    by (simp add: get_user_by_email_def find_absent)
qed

theorem get_user_by_email_probe_order_witness:
  "''ana@x.com'' \<in> set (map pl_email (PLAYER store_family)) \<and>
   ''ana@x.com'' \<in> set (map co_email (COACH store_family)) \<and>
   (\<exists>u. pl_username u = ''ana'' \<and>
      get_user_by_email store_family ''ana@x.com'' = (Some (PlayerRow u), Some ''player'')) \<and>
   (\<exists>u. get_user_by_email store_family ''mom@x.com'' = (Some (ParentRow u), Some ''parent'')) \<and>
   get_user_by_email store_family ''nobody@x.com'' = (None, None)"
proof -
  have p: "''ana@x.com'' \<in> set (map pl_email (PLAYER store_family))"
    and c: "''ana@x.com'' \<in> set (map co_email (COACH store_family))"
    by (simp_all add: store_family_rows)
  from get_user_by_email_probe_order [of "''ana@x.com''" store_family, THEN conjunct1, THEN mp, OF p]
  obtain pre u post where
    h: "PLAYER store_family = pre @ u # post" "pl_email u = ''ana@x.com''"
      "get_user_by_email store_family ''ana@x.com'' = (Some (PlayerRow u), Some ''player'')"
    by blast
  from h(1) have "u \<in> set (PLAYER store_family)" by simp
  then have "pl_username u = ''ana''" by (simp add: store_family_rows)
  with h(3) have a: "\<exists>u. pl_username u = ''ana'' \<and>
      get_user_by_email store_family ''ana@x.com'' = (Some (PlayerRow u), Some ''player'')"
    by blast
  have m: "''mom@x.com'' \<notin> set (map pl_email (PLAYER store_family)) \<and>
      ''mom@x.com'' \<notin> set (map co_email (COACH store_family)) \<and>
      ''mom@x.com'' \<in> set (map pa_email (PARENT store_family))"
    by (simp add: store_family_rows)
  from get_user_by_email_probe_order [of "''mom@x.com''" store_family,
      THEN conjunct2, THEN conjunct2, THEN conjunct1, THEN mp, OF m]
  have b: "\<exists>u. get_user_by_email store_family ''mom@x.com'' = (Some (ParentRow u), Some ''parent'')"
    by blast
  have n: "''nobody@x.com'' \<notin> set (map pl_email (PLAYER store_family)) \<and>
      ''nobody@x.com'' \<notin> set (map co_email (COACH store_family)) \<and>
      ''nobody@x.com'' \<notin> set (map pa_email (PARENT store_family))"
    by (simp add: store_family_rows)
  from get_user_by_email_probe_order [of "''nobody@x.com''" store_family,
      THEN conjunct2, THEN conjunct2, THEN conjunct2, THEN mp, OF n]
  have d: "get_user_by_email store_family ''nobody@x.com'' = (None, None)" .
  from p c a b d show ?thesis by blast
qed

subsection \<open>Teams\<close>

text \<open>Claim C7, as amended.  \<^verbatim>\<open>create_team\<close> raises the name conflict when a team has that
  name.  When no team has the name, it raises \<^verbatim>\<open>OverflowError\<close> for a coach id that does
  not fit 64 bits, and the coach conflict for one that fits and that a \<^verbatim>\<open>TEAM\<close> row has.
  When neither conflict arises and the rowids of the table are used up, it raises
  \<^verbatim>\<open>OperationalError\<close>.  In all these cases the store is left as it was.  In the one
  remaining case it returns and the store differs only in one new \<^verbatim>\<open>TEAM\<close> row, with a fresh
  id, that name and that coach id (and in the rowid counter of the table).\<close>

theorem create_team_conflict:
  "(team_name \<in> set (map tm_name (TEAM s)) \<longrightarrow>
      create_team s team_name coach_id = (Inl (ValueError ''Team name already exists''), s)) \<and>
   (team_name \<notin> set (map tm_name (TEAM s)) \<and> \<not> fits_int64 coach_id \<longrightarrow>
      create_team s team_name coach_id = (Inl OverflowError, s)) \<and>
   (team_name \<notin> set (map tm_name (TEAM s)) \<and> fits_int64 coach_id \<and>
    coach_id \<in> set (map tm_coach_id (TEAM s)) \<longrightarrow>
      create_team s team_name coach_id = (Inl (ValueError ''Coach already has a team''), s)) \<and>
   (team_name \<notin> set (map tm_name (TEAM s)) \<and> fits_int64 coach_id \<and>
    coach_id \<notin> set (map tm_coach_id (TEAM s)) \<and>
    rowid_exhausted (seq_TEAM s) (map tm_id (TEAM s)) \<longrightarrow>
      create_team s team_name coach_id = (Inl OperationalError, s)) \<and>
   (team_name \<notin> set (map tm_name (TEAM s)) \<and> fits_int64 coach_id \<and>
    coach_id \<notin> set (map tm_coach_id (TEAM s)) \<and>
    \<not> rowid_exhausted (seq_TEAM s) (map tm_id (TEAM s)) \<longrightarrow>
      (\<exists>i. i \<notin> set (map tm_id (TEAM s)) \<and>
         create_team s team_name coach_id =
           (Inr (),
            s\<lparr>TEAM := TEAM s @ [\<lparr>tm_id = i, tm_name = team_name, tm_coach_id = coach_id\<rparr>],
              seq_TEAM := i\<rparr>)))"
proof (intro conjI impI)
  assume "team_name \<in> set (map tm_name (TEAM s))"
  from find_first [OF this] obtain u where "find (\<lambda>r. tm_name r = team_name) (TEAM s) = Some u"
    by blast
  then show "create_team s team_name coach_id = (Inl (ValueError ''Team name already exists''), s)"
    by (simp add: create_team_def)
next
  assume "team_name \<notin> set (map tm_name (TEAM s)) \<and> \<not> fits_int64 coach_id"
  then show "create_team s team_name coach_id = (Inl OverflowError, s)"
    by (simp add: create_team_def find_absent)
next
  assume a: "team_name \<notin> set (map tm_name (TEAM s)) \<and> fits_int64 coach_id \<and>
    coach_id \<in> set (map tm_coach_id (TEAM s))"
  from find_first [of coach_id tm_coach_id "TEAM s"] a obtain u where
    "find (\<lambda>r. tm_coach_id r = coach_id) (TEAM s) = Some u"
    by blast
  with a show "create_team s team_name coach_id = (Inl (ValueError ''Coach already has a team''), s)"
    by (simp add: create_team_def find_absent)
next
  assume "team_name \<notin> set (map tm_name (TEAM s)) \<and> fits_int64 coach_id \<and>
    coach_id \<notin> set (map tm_coach_id (TEAM s)) \<and>
    rowid_exhausted (seq_TEAM s) (map tm_id (TEAM s))"
  then show "create_team s team_name coach_id = (Inl OperationalError, s)"
    by (simp add: create_team_def find_absent)
next
  assume a: "team_name \<notin> set (map tm_name (TEAM s)) \<and> fits_int64 coach_id \<and>
    coach_id \<notin> set (map tm_coach_id (TEAM s)) \<and>
    \<not> rowid_exhausted (seq_TEAM s) (map tm_id (TEAM s))"
  define i where "i = next_rowid (seq_TEAM s) (map tm_id (TEAM s))"
  have "i \<notin> set (map tm_id (TEAM s))" unfolding i_def by (rule next_rowid_fresh)
  moreover from a have "create_team s team_name coach_id =
           (Inr (),
            s\<lparr>TEAM := TEAM s @ [\<lparr>tm_id = i, tm_name = team_name, tm_coach_id = coach_id\<rparr>],
              seq_TEAM := i\<rparr>)"
    by (simp add: create_team_def find_absent Let_def i_def)
  ultimately show "\<exists>i. i \<notin> set (map tm_id (TEAM s)) \<and>
         create_team s team_name coach_id =
           (Inr (),
            s\<lparr>TEAM := TEAM s @ [\<lparr>tm_id = i, tm_name = team_name, tm_coach_id = coach_id\<rparr>],
              seq_TEAM := i\<rparr>)"
    by blast
qed

text \<open>Claim C7 as stated fails for a coach id that does not fit 64 bits: with a new team
  name and a coach id of \<open>2\<^sup>6\<^sup>3\<close>, which no \<^verbatim>\<open>TEAM\<close> row has, the call raises
  \<^verbatim>\<open>OverflowError\<close> instead of inserting a row.\<close>

theorem create_team_conflict_counterexample:
  "''Lions'' \<notin> set (map tm_name (TEAM store_family)) \<and>
   9223372036854775808 \<notin> set (map tm_coach_id (TEAM store_family)) \<and>
   create_team store_family ''Lions'' 9223372036854775808 = (Inl OverflowError, store_family)"
  by (simp add: create_team_def store_family_rows fits_int64_def)

lemma store_team_rows:
  "TEAM store_team = [\<lparr>tm_id = 1, tm_name = ''Lions'', tm_coach_id = 1\<rparr>]"
  "COACH store_team = COACH store_family" "PLAYER store_team = PLAYER store_family"
  by (simp_all add: store_team_def create_team_def store_family_rows Let_def next_rowid_def
      fits_int64_def rowid_exhausted_def max_rowid_def)

theorem create_team_conflict_witness:
  "fst (create_team store_family ''Lions'' 1) = Inr () \<and>
   length (TEAM (snd (create_team store_family ''Lions'' 1))) = length (TEAM store_family) + 1 \<and>
   create_team store_team ''Lions'' 2 = (Inl (ValueError ''Team name already exists''), store_team) \<and>
   create_team store_team ''Tigers'' 1 = (Inl (ValueError ''Coach already has a team''), store_team) \<and>
   create_team store_team ''Tigers'' 9223372036854775808 = (Inl OverflowError, store_team)"
proof -
  have a: "''Lions'' \<notin> set (map tm_name (TEAM store_family)) \<and> fits_int64 1 \<and>
      1 \<notin> set (map tm_coach_id (TEAM store_family)) \<and>
      \<not> rowid_exhausted (seq_TEAM store_family) (map tm_id (TEAM store_family))"
    by (simp add: store_family_rows fits_int64_def rowid_exhausted_def max_rowid_def)
  from create_team_conflict [of "''Lions''" store_family 1, THEN conjunct2, THEN conjunct2,
      THEN conjunct2, THEN conjunct2, THEN mp, OF a]
  obtain i where "create_team store_family ''Lions'' 1 =
           (Inr (),
            store_family\<lparr>TEAM := TEAM store_family @
                [\<lparr>tm_id = i, tm_name = ''Lions'', tm_coach_id = 1\<rparr>],
              seq_TEAM := i\<rparr>)"
    by blast
  then have x: "fst (create_team store_family ''Lions'' 1) = Inr ()"
    "length (TEAM (snd (create_team store_family ''Lions'' 1))) = length (TEAM store_family) + 1"
    by simp_all
  have b: "''Lions'' \<in> set (map tm_name (TEAM store_team))"
    by (simp add: store_team_rows)
  have c: "''Tigers'' \<notin> set (map tm_name (TEAM store_team)) \<and> fits_int64 1 \<and>
      1 \<in> set (map tm_coach_id (TEAM store_team))"
    by (simp add: store_team_rows fits_int64_def)
  have d: "''Tigers'' \<notin> set (map tm_name (TEAM store_team)) \<and>
      \<not> fits_int64 9223372036854775808"
    by (simp add: store_team_rows fits_int64_def)
  from x create_team_conflict [of "''Lions''" store_team 2, THEN conjunct1, THEN mp, OF b]
    create_team_conflict [of "''Tigers''" store_team 1, THEN conjunct2, THEN conjunct2,
      THEN conjunct1, THEN mp, OF c]
    create_team_conflict [of "''Tigers''" store_team 9223372036854775808, THEN conjunct2,
      THEN conjunct1, THEN mp, OF d]
  show ?thesis by blast
qed

text \<open>Claim C9, as amended.  When a team with the given name exists and the row of its
  coach exists, \<^verbatim>\<open>join_team\<close> with a player id that fits 64 bits and that no \<^verbatim>\<open>PLAYER\<close> row
  has returns without an error and leaves the store exactly as it was.  With a player id
  that does not fit 64 bits it raises \<^verbatim>\<open>OverflowError\<close>; a missing team and a missing coach
  row raise their \<^verbatim>\<open>ValueError\<close>s.  The store is left as it was in these cases too.\<close>

theorem join_team_missing_player:
  "(team_name \<notin> set (map tm_name (TEAM s)) \<longrightarrow>
      join_team s team_name player_id = (Inl (ValueError ''Team not found''), s)) \<and>
   (find (\<lambda>t. tm_name t = team_name) (TEAM s) = Some team \<and>
    tm_coach_id team \<notin> set (map co_id (COACH s)) \<longrightarrow>
      join_team s team_name player_id = (Inl (ValueError ''Coach not found''), s)) \<and>
   (find (\<lambda>t. tm_name t = team_name) (TEAM s) = Some team \<and>
    tm_coach_id team \<in> set (map co_id (COACH s)) \<and> \<not> fits_int64 player_id \<longrightarrow>
      join_team s team_name player_id = (Inl OverflowError, s)) \<and>
   (find (\<lambda>t. tm_name t = team_name) (TEAM s) = Some team \<and>
    tm_coach_id team \<in> set (map co_id (COACH s)) \<and> fits_int64 player_id \<and>
    player_id \<notin> set (map pl_id (PLAYER s)) \<longrightarrow>
      join_team s team_name player_id = (Inr (), s))"
proof (intro conjI impI)
  assume "team_name \<notin> set (map tm_name (TEAM s))"
  then show "join_team s team_name player_id = (Inl (ValueError ''Team not found''), s)"
    by (simp add: join_team_def find_absent)
next
  assume "find (\<lambda>t. tm_name t = team_name) (TEAM s) = Some team \<and>
    tm_coach_id team \<notin> set (map co_id (COACH s))"
  then show "join_team s team_name player_id = (Inl (ValueError ''Coach not found''), s)"
    by (simp add: join_team_def find_absent Let_def)
next
  assume a: "find (\<lambda>t. tm_name t = team_name) (TEAM s) = Some team \<and>
    tm_coach_id team \<in> set (map co_id (COACH s)) \<and> \<not> fits_int64 player_id"
  from find_first [of "tm_coach_id team" co_id "COACH s"] a obtain coach where
    c: "find (\<lambda>c. co_id c = tm_coach_id team) (COACH s) = Some coach"
    by blast
  with a show "join_team s team_name player_id = (Inl OverflowError, s)"
    by (simp add: join_team_def Let_def)
next
  assume a: "find (\<lambda>t. tm_name t = team_name) (TEAM s) = Some team \<and>
    tm_coach_id team \<in> set (map co_id (COACH s)) \<and> fits_int64 player_id \<and>
    player_id \<notin> set (map pl_id (PLAYER s))"
  from find_first [of "tm_coach_id team" co_id "COACH s"] a obtain coach where
    c: "find (\<lambda>c. co_id c = tm_coach_id team) (COACH s) = Some coach"
    by blast
  have "map (\<lambda>p. if pl_id p = player_id
                  then p\<lparr>pl_team_id := Some (tm_id team), pl_coach := Some (co_name coach),
                         pl_coachEmail := Some (co_email coach)\<rparr>
                  else p) (PLAYER s) = PLAYER s"
    using a by (intro map_idI) auto
  with a c show "join_team s team_name player_id = (Inr (), s)"
    by (simp add: join_team_def Let_def)
qed

text \<open>Claim C9 as stated fails for a player id that does not fit 64 bits: the team and its
  coach exist, no \<^verbatim>\<open>PLAYER\<close> row has the id \<open>2\<^sup>6\<^sup>3\<close>, and the call raises \<^verbatim>\<open>OverflowError\<close>
  instead of returning.\<close>

theorem join_team_missing_player_counterexample:
  "find (\<lambda>t. tm_name t = ''Lions'') (TEAM store_team) =
     Some \<lparr>tm_id = 1, tm_name = ''Lions'', tm_coach_id = 1\<rparr> \<and>
   1 \<in> set (map co_id (COACH store_team)) \<and>
   9223372036854775808 \<notin> set (map pl_id (PLAYER store_team)) \<and>
   join_team store_team ''Lions'' 9223372036854775808 = (Inl OverflowError, store_team)"
  by (simp add: join_team_def Let_def store_team_rows store_family_rows fits_int64_def)

theorem join_team_missing_player_witness:
  "find (\<lambda>t. tm_name t = ''Lions'') (TEAM store_team) =
     Some \<lparr>tm_id = 1, tm_name = ''Lions'', tm_coach_id = 1\<rparr> \<and>
   1 \<in> set (map co_id (COACH store_team)) \<and> 99 \<notin> set (map pl_id (PLAYER store_team)) \<and>
   join_team store_team ''Lions'' 99 = (Inr (), store_team) \<and>
   join_team store_team ''Tigers'' 99 = (Inl (ValueError ''Team not found''), store_team)"
proof -
  have a: "find (\<lambda>t. tm_name t = ''Lions'') (TEAM store_team) =
       Some \<lparr>tm_id = 1, tm_name = ''Lions'', tm_coach_id = 1\<rparr> \<and>
     tm_coach_id \<lparr>tm_id = 1, tm_name = ''Lions'', tm_coach_id = 1\<rparr> \<in> set (map co_id (COACH store_team)) \<and>
     fits_int64 99 \<and> 99 \<notin> set (map pl_id (PLAYER store_team))"
    by (simp add: store_team_rows store_family_rows fits_int64_def)
  have b: "''Tigers'' \<notin> set (map tm_name (TEAM store_team))"
    by (simp add: store_team_rows)
  from a join_team_missing_player [of "''Lions''" store_team 99 _, THEN conjunct2, THEN conjunct2,
      THEN conjunct2, THEN mp, OF a]
    join_team_missing_player [of "''Tigers''" store_team 99, THEN conjunct1, THEN mp, OF b]
  show ?thesis by simp
qed

subsection \<open>The progress query\<close>

lemma truthy_text_not_empty: "truthy_text x \<noteq> Some []"
  by (simp add: truthy_text_def split: option.splits)

lemma group_rows_keeps:
  "(c, es) \<in> set acc \<Longrightarrow> x \<in> set es \<Longrightarrow>
   \<exists>es'. (c, es') \<in> set (group_rows rows acc) \<and> x \<in> set es'"
proof (induction rows acc arbitrary: es rule: group_rows.induct)
  case (1 category_data)
  then show ?case by auto
next
  case (2 category exercise_name r t rest category_data)
  define acc1 where "acc1 =
    (if category \<in> set (map fst category_data) then category_data
     else category_data @ [(category, [])])"
  define acc2 where "acc2 =
    map (\<lambda>(k, v). if k = category
           then (k, v @ [\<lparr>e_exercise = exercise_name, e_result = truthy_text r,
                           e_rating = truthy_number t\<rparr>])
           else (k, v)) acc1"
  from "2.prems"(1) have "(c, es) \<in> set acc1" by (simp add: acc1_def)
  then have "\<exists>es1. (c, es1) \<in> set acc2 \<and> x \<in> set es1"
    using "2.prems"(2) unfolding acc2_def by (cases "c = category") force+
  then obtain es1 where "(c, es1) \<in> set acc2" "x \<in> set es1" by blast
  from "2.IH" [OF refl refl refl, folded acc1_def, folded acc2_def, OF this]
  show ?case by (simp add: Let_def acc1_def acc2_def)
qed


lemma group_rows_adds:
  "(c, e, r, t) \<in> set rows \<Longrightarrow>
   \<exists>es. (c, es) \<in> set (group_rows rows acc) \<and>
     \<lparr>e_exercise = e, e_result = truthy_text r, e_rating = truthy_number t\<rparr> \<in> set es"
proof (induction rows acc rule: group_rows.induct)
  case (1 category_data)
  then show ?case by simp
next
  case (2 category exercise_name r' t' rest category_data)
  define acc1 where "acc1 =
    (if category \<in> set (map fst category_data) then category_data
     else category_data @ [(category, [])])"
  define acc2 where "acc2 =
    map (\<lambda>(k, v). if k = category
           then (k, v @ [\<lparr>e_exercise = exercise_name, e_result = truthy_text r',
                           e_rating = truthy_number t'\<rparr>])
           else (k, v)) acc1"
  have unfold: "group_rows ((category, exercise_name, r', t') # rest) category_data =
      group_rows rest acc2"
    by (simp add: Let_def acc1_def acc2_def)
  show ?case
  proof (cases "(c, e, r, t) = (category, exercise_name, r', t')")
    case True
    have "category \<in> set (map fst acc1)" by (auto simp: acc1_def)
    then obtain v where "(category, v) \<in> set acc1" by auto
    then have "(category, v @ [\<lparr>e_exercise = exercise_name, e_result = truthy_text r',
                           e_rating = truthy_number t'\<rparr>]) \<in> set acc2"
      unfolding acc2_def by force
    from group_rows_keeps [OF this, of "\<lparr>e_exercise = exercise_name, e_result = truthy_text r',
                           e_rating = truthy_number t'\<rparr>" rest]
    show ?thesis using True unfold by simp
  next
    case False
    with "2.prems" have "(c, e, r, t) \<in> set rest" by auto
    from "2.IH" [OF refl refl refl, folded acc1_def, folded acc2_def, OF this]
    show ?thesis using unfold by simp
  qed
qed

lemma group_rows_distinct:
  "distinct (map fst acc) \<Longrightarrow> distinct (map fst (group_rows rows acc))"
proof (induction rows acc rule: group_rows.induct)
  case (1 category_data)
  then show ?case by simp
next
  case (2 category exercise_name r t rest category_data)
  define acc1 where "acc1 =
    (if category \<in> set (map fst category_data) then category_data
     else category_data @ [(category, [])])"
  define acc2 where "acc2 =
    map (\<lambda>(k, v). if k = category
           then (k, v @ [\<lparr>e_exercise = exercise_name, e_result = truthy_text r,
                           e_rating = truthy_number t\<rparr>])
           else (k, v)) acc1"
  have "distinct (map fst acc1)" using "2.prems" by (simp add: acc1_def)
  moreover have "map fst acc2 = map fst acc1"
    unfolding acc2_def by (induction acc1) auto
  ultimately have "distinct (map fst acc2)" by simp
  from "2.IH" [OF refl refl refl, folded acc1_def, folded acc2_def, OF this]
  show ?case by (simp add: Let_def acc1_def acc2_def)
qed

lemma group_rows_no_empty_result:
  "list_all (\<lambda>kv. list_all (\<lambda>x. e_result x \<noteq> Some []) (snd kv)) acc \<Longrightarrow>
   list_all (\<lambda>kv. list_all (\<lambda>x. e_result x \<noteq> Some []) (snd kv)) (group_rows rows acc)"
proof (induction rows acc rule: group_rows.induct)
  case (1 category_data)
  then show ?case by simp
next
  case (2 category exercise_name r t rest category_data)
  define acc1 where "acc1 =
    (if category \<in> set (map fst category_data) then category_data
     else category_data @ [(category, [])])"
  define acc2 where "acc2 =
    map (\<lambda>(k, v). if k = category
           then (k, v @ [\<lparr>e_exercise = exercise_name, e_result = truthy_text r,
                           e_rating = truthy_number t\<rparr>])
           else (k, v)) acc1"
  have "list_all (\<lambda>kv. list_all (\<lambda>x. e_result x \<noteq> Some []) (snd kv)) acc1"
    using "2.prems" by (simp add: acc1_def)
  then have "list_all (\<lambda>kv. list_all (\<lambda>x. e_result x \<noteq> Some []) (snd kv)) acc2"
    unfolding acc2_def by (induction acc1) (auto simp: truthy_text_not_empty)
  from "2.IH" [OF refl refl refl, folded acc1_def, folded acc2_def, OF this]
  show ?case by (simp add: Let_def acc1_def acc2_def)
qed

lemma progress_rows_mem:
  assumes "c \<in> set (CATEGORY s)" and "e \<in> set (EXERCISE s)" and "cat_id c = ex_category_id e"
    and "pe \<in> set (PLAYER_EXERCISE s)" and "pe_player_id pe = player_id"
    and "pe_exercise_id pe = ex_id e"
  shows "(cat_name c, ex_name e, pe_result pe, pe_rating pe) \<in> set (progress_rows s player_id)"
proof -
  define G where "G = (\<lambda>(c::category) (e::exercise).
    (let pes = filter (\<lambda>pe. ex_id e = pe_exercise_id pe \<and> pe_player_id pe = player_id)
                 (PLAYER_EXERCISE s)
     in if pes = [] then [(cat_name c, ex_name e, None, None)]
        else map (\<lambda>pe. (cat_name c, ex_name e, pe_result pe, pe_rating pe)) pes))"
  define F where "F = (\<lambda>c::category. concat (map (G c)
    (filter (\<lambda>e. cat_id c = ex_category_id e) (EXERCISE s))))"
  have pr: "progress_rows s player_id = concat (map F (CATEGORY s))"
    by (simp add: progress_rows_def G_def F_def)
  let ?pes = "filter (\<lambda>pe. ex_id e = pe_exercise_id pe \<and> pe_player_id pe = player_id)
      (PLAYER_EXERCISE s)"
  let ?x = "(cat_name c, ex_name e, pe_result pe, pe_rating pe)"
  from assms(4-6) have m: "pe \<in> set ?pes" by simp
  then have ne: "?pes \<noteq> []" by (cases ?pes) simp_all
  from m have "?x \<in> set (map (\<lambda>pe. (cat_name c, ex_name e, pe_result pe, pe_rating pe)) ?pes)"
    unfolding set_map by (rule rev_image_eqI) simp
  with ne have 1: "?x \<in> set (G c e)" by (simp only: G_def Let_def if_False)
  from assms(2,3) have 2: "e \<in> set (filter (\<lambda>e. cat_id c = ex_category_id e) (EXERCISE s))"
    by simp
  from 1 2 have 3: "?x \<in> set (F c)" unfolding F_def set_concat set_map by blast
  from 3 assms(1) show ?thesis unfolding pr set_concat set_map by blast
qed

text \<open>Claim C10.  When the \<^verbatim>\<open>PLAYER_EXERCISE\<close> row of a player and an exercise holds the
  empty string as result, \<^verbatim>\<open>get_categories_and_exercises_with_ratings\<close> lists that exercise
  under its category with the result absent (and the rating with 0 turned to absent); no
  entry of the returned mapping has the empty string as result.\<close>

theorem empty_result_reported_absent:
  assumes "c \<in> set (CATEGORY s)" and "e \<in> set (EXERCISE s)" and "cat_id c = ex_category_id e"
    and "pe \<in> set (PLAYER_EXERCISE s)" and "pe_player_id pe = player_id"
    and "pe_exercise_id pe = ex_id e" and "pe_result pe = Some []"
  shows "\<exists>entries.
           map_of (get_categories_and_exercises_with_ratings s player_id) (cat_name c) = Some entries \<and>
           \<lparr>e_exercise = ex_name e, e_result = None, e_rating = truthy_number (pe_rating pe)\<rparr>
             \<in> set entries \<and>
           list_all (\<lambda>kv. list_all (\<lambda>x. e_result x \<noteq> Some []) (snd kv))
             (get_categories_and_exercises_with_ratings s player_id)"
proof -
  let ?out = "get_categories_and_exercises_with_ratings s player_id"
  from progress_rows_mem [OF assms(1-6)]
  have "(cat_name c, ex_name e, pe_result pe, pe_rating pe) \<in> set (progress_rows s player_id)" .
  from group_rows_adds [OF this, of "[]"] obtain es where
    es: "(cat_name c, es) \<in> set ?out"
      "\<lparr>e_exercise = ex_name e, e_result = truthy_text (pe_result pe),
        e_rating = truthy_number (pe_rating pe)\<rparr> \<in> set es"
    unfolding get_categories_and_exercises_with_ratings_def by blast
  have "distinct (map fst ?out)"
    unfolding get_categories_and_exercises_with_ratings_def by (rule group_rows_distinct) simp
  with es(1) have "map_of ?out (cat_name c) = Some es" by simp
  moreover from es(2) assms(7) have
    "\<lparr>e_exercise = ex_name e, e_result = None, e_rating = truthy_number (pe_rating pe)\<rparr> \<in> set es"
    by (simp add: truthy_text_def)
  moreover have "list_all (\<lambda>kv. list_all (\<lambda>x. e_result x \<noteq> Some []) (snd kv)) ?out"
    unfolding get_categories_and_exercises_with_ratings_def
    by (rule group_rows_no_empty_result) simp
  ultimately show ?thesis by blast
qed

lemma store_empty_result_rows:
  "CATEGORY store_empty_result = seed_categories"
  "EXERCISE store_empty_result = seed_exercise_rows"
  "PLAYER_EXERCISE store_empty_result =
     map (\<lambda>i. \<lparr>pe_id = i, pe_player_id = 1, pe_exercise_id = i,
               pe_result = (if i = 10 then Some [] else None),
               pe_rating = (if i = 10 then Some 4 else None)\<rparr>)
       [1, 2, 3, 4, 5, 6, 7, 8, 9, 10, 11, 12, 13, 14, 15, 16, 17]"
  by (simp_all add: store_empty_result_def update_exercise_def Let_def data_empty_result_def
      values_bind_def fits_int64_def set_fields_def store_ana_rows seed_exercise_rows_def
      rating_check_def)

theorem empty_result_reported_absent_witness:
  "\<lparr>pe_id = 10, pe_player_id = 1, pe_exercise_id = 10, pe_result = Some [], pe_rating = Some 4\<rparr>
     \<in> set (PLAYER_EXERCISE store_empty_result) \<and>
   (\<exists>entries.
      map_of (get_categories_and_exercises_with_ratings store_empty_result 1) ''DRI'' = Some entries \<and>
      \<lparr>e_exercise = ''Stepovers'', e_result = None, e_rating = Some 4\<rparr> \<in> set entries)"
proof -
  let ?c = "\<lparr>cat_id = 4, cat_name = ''DRI''\<rparr>"
  let ?e = "\<lparr>ex_id = 10, ex_category_id = 4, ex_name = ''Stepovers''\<rparr>"
  let ?pe = "\<lparr>pe_id = 10, pe_player_id = 1, pe_exercise_id = 10, pe_result = Some [],
      pe_rating = Some 4\<rparr>"
  have c: "?c \<in> set (CATEGORY store_empty_result)"
    by (simp add: store_empty_result_rows seed_categories_def)
  have e: "?e \<in> set (EXERCISE store_empty_result)"
    by (simp add: store_empty_result_rows seed_exercise_rows_def)
  have pe: "?pe \<in> set (PLAYER_EXERCISE store_empty_result)"
    by (simp add: store_empty_result_rows)
  have "\<exists>entries.
           map_of (get_categories_and_exercises_with_ratings store_empty_result 1) (cat_name ?c) =
             Some entries \<and>
           \<lparr>e_exercise = ex_name ?e, e_result = None, e_rating = truthy_number (pe_rating ?pe)\<rparr>
             \<in> set entries \<and>
           list_all (\<lambda>kv. list_all (\<lambda>x. e_result x \<noteq> Some []) (snd kv))
             (get_categories_and_exercises_with_ratings store_empty_result 1)"
    by (rule empty_result_reported_absent [OF c e _ pe]) simp_all
  then have "\<exists>entries.
      map_of (get_categories_and_exercises_with_ratings store_empty_result 1) ''DRI'' = Some entries \<and>
      \<lparr>e_exercise = ''Stepovers'', e_result = None, e_rating = Some 4\<rparr> \<in> set entries"
    by (auto simp: truthy_number_def)
  with pe show ?thesis by blast
qed

end
